theory Spec2Isabelle
  imports Main "HOL-Library.Sublist"
begin

section \<open>Python values and strings\<close>

text \<open>
  The scrapers are Python scripts. Strings are modelled as \<open>string\<close> (ASCII only),
  lists as HOL lists, \<open>None\<close> as \<open>None\<close> of an option type. A JSON object of a fixed
  shape is a record whose fields are options: \<open>None\<close> stands for an absent key, and a
  present key holds a string (JSON \<open>null\<close> and numbers are not modelled).
\<close>

text \<open>\<open>d.get(k, default)\<close> on a key whose presence is the option.\<close>

definition get_default :: "'a option \<Rightarrow> 'a \<Rightarrow> 'a" where
  "get_default v d = (case v of None \<Rightarrow> d | Some x \<Rightarrow> x)"

text \<open>\<open>sep.join(parts)\<close>.\<close>

fun py_join :: "string \<Rightarrow> string list \<Rightarrow> string" where
  "py_join sep [] = []"
| "py_join sep [x] = x"
| "py_join sep (x # y # ys) = x @ sep @ py_join sep (y # ys)"

text \<open>\<open>str(n)\<close> for a non-negative integer.\<close>

fun str_nat :: "nat \<Rightarrow> string" where
  "str_nat n = (if n < 10 then [''0123456789'' ! n]
                else str_nat (n div 10) @ [''0123456789'' ! (n mod 10)])"

declare str_nat.simps [simp del]

text \<open>
  A cell of a CSV row, or the value of a dictionary entry whose type varies: the NC
  scraper stores under \<open>"AttorneyAddress"\<close> either a list of strings or the empty string,
  and under \<open>"AttorneyName"\<close> a string or \<open>None\<close>.
\<close>

datatype py_value = PyNone | PyStr string | PyList "string list"

definition opt_value :: "string option \<Rightarrow> py_value" where
  "opt_value v = (case v of None \<Rightarrow> PyNone | Some s \<Rightarrow> PyStr s)"


text \<open>\<open>sub in s\<close> for strings.\<close>

fun contains :: "string \<Rightarrow> string \<Rightarrow> bool" where
  "contains sub [] = (sub = [])"
| "contains sub (c # cs) = (prefix sub (c # cs) \<or> contains sub cs)"

text \<open>
  \<open>s.replace(old, new)\<close> for a non-empty \<open>old\<close>: the occurrences are replaced from left
  to right without overlap. The counter says how many characters of an occurrence
  just replaced are still to be skipped.
\<close>

fun replace_aux :: "string \<Rightarrow> string \<Rightarrow> nat \<Rightarrow> string \<Rightarrow> string" where
  "replace_aux old new skip [] = []"
| "replace_aux old new (Suc k) (c # cs) = replace_aux old new k cs"
| "replace_aux old new 0 (c # cs) =
     (if prefix old (c # cs) then new @ replace_aux old new (length old - 1) cs
      else c # replace_aux old new 0 cs)"

definition replace :: "string \<Rightarrow> string \<Rightarrow> string \<Rightarrow> string" where
  "replace old new s = replace_aux old new 0 s"

text \<open>
  \<open>s.split(sep)\<close> for a non-empty \<open>sep\<close>: empty pieces are kept, so two separators in
  a row give an empty string between them.
\<close>

fun split_aux :: "string \<Rightarrow> nat \<Rightarrow> string \<Rightarrow> string \<Rightarrow> string list" where
  "split_aux sep skip cur [] = [cur]"
| "split_aux sep (Suc k) cur (c # cs) = split_aux sep k cur cs"
| "split_aux sep 0 cur (c # cs) =
     (if prefix sep (c # cs) then cur # split_aux sep (length sep - 1) [] cs
      else split_aux sep 0 (cur @ [c]) cs)"

definition split_sep :: "string \<Rightarrow> string \<Rightarrow> string list" where
  "split_sep sep s = split_aux sep 0 [] s"

text \<open>The ASCII characters Python counts as whitespace.\<close>

definition is_space :: "char \<Rightarrow> bool" where
  "is_space c = (c \<in> set [CHR '' '', CHR 0x09, CHR 0x0A, CHR 0x0B, CHR 0x0C, CHR 0x0D,
                          CHR 0x1C, CHR 0x1D, CHR 0x1E, CHR 0x1F])"

text \<open>\<open>s.split()\<close>: the maximal runs of characters that are not whitespace.\<close>

fun split_ws_aux :: "string \<Rightarrow> string \<Rightarrow> string list" where
  "split_ws_aux cur [] = (if cur = [] then [] else [cur])"
| "split_ws_aux cur (c # cs) =
     (if is_space c then (if cur = [] then [] else [cur]) @ split_ws_aux [] cs
      else split_ws_aux (cur @ [c]) cs)"

definition split_ws :: "string \<Rightarrow> string list" where
  "split_ws s = split_ws_aux [] s"

text \<open>\<open>s.strip()\<close>.\<close>

definition strip :: "string \<Rightarrow> string" where
  "strip s = rev (dropWhile is_space (rev (dropWhile is_space s)))"

text \<open>\<open>s.upper()\<close> on ASCII.\<close>

definition upper_char :: "char \<Rightarrow> char" where
  "upper_char c =
     (case map_of (zip ''abcdefghijklmnopqrstuvwxyz'' ''ABCDEFGHIJKLMNOPQRSTUVWXYZ'') c of
        Some u \<Rightarrow> u
      | None \<Rightarrow> c)"

definition upper :: "string \<Rightarrow> string" where
  "upper s = map upper_char s"


section \<open>Exceptions and the log\<close>

text \<open>
  An exception is its class and its message. The classes kept apart are the ones an
  \<open>except\<close> clause of the scrapers tells apart: \<open>requests.RequestException\<close> with its
  subclasses \<open>ConnectionError\<close>, \<open>ChunkedEncodingError\<close> and \<open>HTTPError\<close>, the built-in
  \<open>TimeoutError\<close> (the timeout of Playwright is another class), and the rest.
\<close>

datatype exc_class =
    ConnectionError | ChunkedEncodingError | HTTPError | OtherRequestException
  | IndexError | TypeError | TimeoutError | PlaywrightError | OtherError

datatype py_exception = PyException exc_class string

fun exc_class_of :: "py_exception \<Rightarrow> exc_class" where
  "exc_class_of (PyException c m) = c"

text \<open>\<open>f"{e}"\<close>.\<close>

fun exc_str :: "py_exception \<Rightarrow> string" where
  "exc_str (PyException c m) = m"

definition is_RequestException :: "py_exception \<Rightarrow> bool" where
  "is_RequestException e =
     (exc_class_of e \<in> set [ConnectionError, ChunkedEncodingError, HTTPError, OtherRequestException])"

text \<open>
  The log is the list of the records written, oldest first. The models write the
  warnings, the errors and the notices of a skipped or a selected item; the other
  \<open>info\<close> records of the scripts are left out.
\<close>

datatype level = INFO | WARNING | ERROR | CRITICAL

type_synonym log_entry = "level \<times> string"

text \<open>The error records of a log.\<close>

definition errors_logged :: "log_entry list \<Rightarrow> log_entry list" where
  "errors_logged entries = filter (\<lambda>entry. fst entry = ERROR) entries"


section \<open>First occurrences and initial segments\<close>

text \<open>
  The elements of a list that are the first of their key: the element at position \<open>k\<close> is
  kept when no element before it has the same key. The elements kept are in the order of
  the list.
\<close>

definition first_occurrences :: "('a \<Rightarrow> 'b) \<Rightarrow> 'a list \<Rightarrow> 'a list" where
  "first_occurrences key xs =
     map (\<lambda>k. xs ! k) (filter (\<lambda>k. key (xs ! k) \<notin> set (map key (take k xs))) [0..<length xs])"

text \<open>
  The initial segment of a list that ends with the first element satisfying \<open>stop\<close>, that
  element included; the whole list when there is none.
\<close>

fun upto_first :: "('a \<Rightarrow> bool) \<Rightarrow> 'a list \<Rightarrow> 'a list" where
  "upto_first stop [] = []"
| "upto_first stop (x # xs) = (if stop x then [x] else x # upto_first stop xs)"

text \<open>For the proofs: the first occurrences, given the keys seen before the list.\<close>

fun first_by :: "('a \<Rightarrow> 'b) \<Rightarrow> 'b list \<Rightarrow> 'a list \<Rightarrow> 'a list" where
  "first_by key seen [] = []"
| "first_by key seen (x # xs) =
     (if key x \<in> set seen then first_by key seen xs
      else x # first_by key (seen @ [key x]) xs)"


section \<open>North Carolina: the Parties payload and \<open>get_attorney_info\<close>\<close>

record address =
  AddressLine1 :: "string option"
  AddressLine2 :: "string option"
  AddressLine3 :: "string option"
  AddressLine4 :: "string option"
  City :: "string option"
  State :: "string option"
  PostalCode :: "string option"

record attorney_json =
  FormattedName :: "string option"
  Addresses :: "address list"

record party =
  CasePartyAttorneys :: "attorney_json list"

record attorney_entry =
  AttorneyName :: py_value
  AttorneyAddress :: py_value

text \<open>
  The body of the loop over \<open>addresses\<close> (lines 345 to 378): the seven components are read
  with default \<open>""\<close>; \<open>location_parts\<close> only decides whether a location block is built, the
  block itself joins the unfiltered \<open>state\<close>, \<open>postal_code\<close> and \<open>city\<close>.
\<close>

definition format_address :: "address \<Rightarrow> string" where
  "format_address a =
     (let address_info1 = get_default (AddressLine1 a) '''';
          address_info2 = get_default (AddressLine2 a) '''';
          address_info3 = get_default (AddressLine3 a) '''';
          address_info4 = get_default (AddressLine4 a) '''';
          city = get_default (City a) '''';
          state = get_default (State a) '''';
          postal_code = get_default (PostalCode a) '''';
          location_parts = filter (\<lambda>part. part \<noteq> []) [city, state, postal_code];
          location_block =
            (if location_parts \<noteq> []
             then (let state_zip = py_join '' '' [state, postal_code]
                   in py_join '', '' [city, state_zip])
             else '''');
          full_address_components =
            [address_info1, address_info2, address_info3, address_info4, location_block];
          clean_parts = filter (\<lambda>part. part \<noteq> []) full_address_components
      in py_join '', '' clean_parts)"

text \<open>The dictionary built for one attorney (lines 338 to 386).\<close>

definition attorney_complete_info :: "attorney_json \<Rightarrow> attorney_entry" where
  "attorney_complete_info info =
     (let attorney_name = opt_value (FormattedName info);
          attorney_addresses = map format_address (Addresses info)
      in \<lparr>AttorneyName = attorney_name,
          AttorneyAddress =
            (if attorney_addresses \<noteq> [] then PyList attorney_addresses else PyStr '''')\<rparr>)"

text \<open>
  The loop \<open>for info in attorney_info\<close>: an entry is appended to \<open>attorneys\<close> unless an
  entry of the same name is there already.
\<close>

fun attorney_loop :: "attorney_json list \<Rightarrow> attorney_entry list \<Rightarrow> attorney_entry list" where
  "attorney_loop [] attorneys = attorneys"
| "attorney_loop (info # rest) attorneys =
     (let attorney_complete = attorney_complete_info info
      in attorney_loop rest
           (if \<not> list_ex (\<lambda>key. AttorneyName key = AttorneyName attorney_complete) attorneys
            then attorneys @ [attorney_complete]
            else attorneys))"

text \<open>
  The loop \<open>for party in all_parties\<close>, with the two variables it updates:
  \<open>attorney_info_len\<close> and \<open>attorneys\<close>. The list \<open>attorneys\<close> is created once before the
  loop and is only ever appended to.
\<close>

fun party_loop :: "party list \<Rightarrow> nat \<Rightarrow> attorney_entry list \<Rightarrow> attorney_entry list" where
  "party_loop [] attorney_info_len attorneys = attorneys"
| "party_loop (p # rest) attorney_info_len attorneys =
     (let attorney_info = CasePartyAttorneys p
      in if attorney_info \<noteq> []
         then (if length attorney_info > attorney_info_len
               then party_loop rest (length attorney_info) (attorney_loop attorney_info attorneys)
               else party_loop rest attorney_info_len attorneys)
         else party_loop rest attorney_info_len attorneys)"

text \<open>What \<open>get_attorney_info\<close> returns once the Parties payload has been received.\<close>

definition attorneys_of_parties :: "party list \<Rightarrow> attorney_entry list" where
  "attorneys_of_parties all_parties = party_loop all_parties 0 []"


text \<open>
  For the proofs: the attorneys of the parties that set a record, that is, whose number
  of attorneys exceeds \<open>n\<close> and that of every earlier party.
\<close>

definition record_attorneys :: "nat \<Rightarrow> party list \<Rightarrow> attorney_json set" where
  "record_attorneys n ps =
     {a. \<exists>i < length ps. a \<in> set (CasePartyAttorneys (ps ! i))
           \<and> n < length (CasePartyAttorneys (ps ! i))
           \<and> (\<forall>j < i. length (CasePartyAttorneys (ps ! j)) < length (CasePartyAttorneys (ps ! i)))}"

text \<open>
  The parties that set a record: a party with at least one attorney and with more
  attorneys than every party before it, in the order of the payload.
\<close>

definition record_parties :: "party list \<Rightarrow> party list" where
  "record_parties all_parties =
     map (\<lambda>i. all_parties ! i)
       (filter (\<lambda>i. CasePartyAttorneys (all_parties ! i) \<noteq> []
                   \<and> (\<forall>earlier \<in> set (take i all_parties).
                          length (CasePartyAttorneys earlier)
                            < length (CasePartyAttorneys (all_parties ! i))))
          [0..<length all_parties])"

text \<open>For the proofs: the parties that set a record above \<open>n\<close>.\<close>

fun records_above :: "nat \<Rightarrow> party list \<Rightarrow> party list" where
  "records_above n [] = []"
| "records_above n (p # ps) =
     (if n < length (CasePartyAttorneys p)
      then p # records_above (length (CasePartyAttorneys p)) ps
      else records_above n ps)"


section \<open>North Carolina: \<open>save_to_csv\<close>\<close>

record case_record =
  Case_Number :: string
  Case_Type :: "string option"
  Attorney_Info :: "attorney_entry list"
  PDF_File :: string

fun max_attorneys_loop :: "case_record list \<Rightarrow> nat \<Rightarrow> nat" where
  "max_attorneys_loop [] max_attorneys = max_attorneys"
| "max_attorneys_loop (item # rest) max_attorneys =
     max_attorneys_loop rest (max max_attorneys (length (Attorney_Info item)))"

definition get_max_attorneys_in_batch :: "case_record list \<Rightarrow> nat" where
  "get_max_attorneys_in_batch scraped_data = max_attorneys_loop scraped_data 0"

definition base_headers :: "string list" where
  "base_headers = [''Case Number'', ''Case Type'', ''PDF File'']"

definition attorney_headers :: "nat \<Rightarrow> string list" where
  "attorney_headers max_attorneys =
     concat (map (\<lambda>i. [''Attorney Name '' @ str_nat i, ''Attorney Address '' @ str_nat i])
                 [1 ..< max_attorneys + 1])"

definition final_headers :: "case_record list \<Rightarrow> string list" where
  "final_headers scraped_data =
     base_headers @ attorney_headers (get_max_attorneys_in_batch scraped_data)"

definition flattened_attorneys :: "case_record \<Rightarrow> py_value list" where
  "flattened_attorneys item =
     concat (map (\<lambda>attorney_dict. [AttorneyName attorney_dict, AttorneyAddress attorney_dict])
                 (Attorney_Info item))"

text \<open>
  One data row. \<open>[""] * padding_needed\<close> is the empty list when \<open>padding_needed\<close> is
  negative, which is what \<open>nat\<close> of a negative integer gives.
\<close>

definition data_row :: "nat \<Rightarrow> case_record \<Rightarrow> py_value list" where
  "data_row required_attorney_cols item =
     (let row = [PyStr (Case_Number item), opt_value (Case_Type item), PyStr (PDF_File item)];
          padding_needed = int required_attorney_cols - int (length (flattened_attorneys item))
      in row @ flattened_attorneys item @ replicate (nat padding_needed) (PyStr ''''))"

definition data_rows :: "case_record list \<Rightarrow> py_value list list" where
  "data_rows scraped_data =
     map (data_row (length (attorney_headers (get_max_attorneys_in_batch scraped_data))))
         scraped_data"

text \<open>Everything \<open>save_to_csv\<close> hands to the CSV writer: the header row, then the data rows.\<close>

definition csv_rows :: "case_record list \<Rightarrow> py_value list list" where
  "csv_rows scraped_data = map PyStr (final_headers scraped_data) # data_rows scraped_data"


section \<open>New York attorney details: \<open>AttorneyDetailsScraper.run\<close>\<close>




record name_parts =
  first_name :: "string option"
  middle_name :: "string option"
  last_name :: "string option"

text \<open>Lines 112 to 131: the three names start as \<open>None\<close>; the two \<open>if\<close> run one after the other.\<close>

definition assign_names :: "string list \<Rightarrow> name_parts" where
  "assign_names cleaned =
     (let names0 = \<lparr>first_name = None, middle_name = None, last_name = None\<rparr>;
          names1 = (if length cleaned = 2
                    then names0\<lparr>first_name := Some (cleaned ! 0), last_name := Some (cleaned ! 1)\<rparr>
                    else names0);
          names2 = (if length cleaned = 3 \<or> length cleaned = 4
                    then names1\<lparr>first_name := Some (cleaned ! 0), middle_name := Some (cleaned ! 1),
                                 last_name := Some (cleaned ! 2)\<rparr>
                    else names1)
      in names2)"


text \<open>
  Lines 187 to 196: the loop over the result links, given by their displayed texts.
  The result is the index of the first link whose token set equals the one of the
  query, with the record logged, or \<open>None\<close> when the loop ends without a \<open>break\<close>.
\<close>

definition link_matches :: "string \<Rightarrow> string \<Rightarrow> bool" where
  "link_matches search_name_upper link_inner_text =
     (let link_text = upper link_inner_text;
          attorney_name_parts = set (split_ws search_name_upper);
          link_text_parts = set (split_ws (replace '','' '' '' link_text))
      in attorney_name_parts = link_text_parts)"

fun find_target_link :: "string \<Rightarrow> string list \<Rightarrow> nat \<Rightarrow> (nat \<times> log_entry) option" where
  "find_target_link search_name_upper [] i = None"
| "find_target_link search_name_upper (link # links) i =
     (if link_matches search_name_upper link
      then Some (i, (INFO, ''Found exact match: '' @ upper link))
      else find_target_link search_name_upper links (Suc i))"

text \<open>
  Lines 184 to 203: the link to click, as an index into \<open>links\<close>, and the records
  logged. \<open>links[0]\<close> raises \<open>IndexError\<close> on an empty list.
\<close>

definition select_link :: "string \<Rightarrow> string list \<Rightarrow> (py_exception + nat) \<times> log_entry list" where
  "select_link attorney links =
     (let search_name_upper = upper attorney
      in case find_target_link search_name_upper links 0 of
           Some (target_link, found) \<Rightarrow> (Inr target_link, [found])
         | None \<Rightarrow>
             (case links of
                [] \<Rightarrow> (Inl (PyException IndexError ''list index out of range''), [])
              | first # _ \<Rightarrow>
                  (Inr 0, [(WARNING, ''No exact match found for '' @ attorney
                                      @ ''. Clicking first result: '' @ first)])))"

















section \<open>New York court records: \<open>NewyorkCourtScraper\<close>\<close>

text \<open>The dictionary built for one file (lines 124 to 130); a field not found is \<open>None\<close>.\<close>

record filing_record =
  County :: "string option"
  File_Number :: "string option"
  Proceeding_Type :: "string option"
  Estate_Attorney :: "string option"
  Estate_Attorney_Firm :: "string option"

text \<open>
  What the browser does for one file link of a results page: an exception of the wait
  for the link (line 69), the text of the link, an exception of the click (lines 78 to
  85), an exception of \<open>page.content\<close> (line 87), the record extracted or the exception of
  the extraction with the value \<open>file_no\<close> had by then (lines 94 to 122), and an exception
  of \<open>page.go_back\<close> (line 138).
\<close>

record file_link =
  link_wait_error :: "py_exception option"
  link_text_content :: "string option"
  click_error :: "py_exception option"
  content_error :: "py_exception option"
  extraction :: "(py_exception \<times> string option) + filing_record"
  link_go_back_error :: "py_exception option"

text \<open>
  A results page: an exception of the wait for the table, an exception of the wait for
  the first link, the file links, whether a pagination link is visible, and the
  pagination links, each with an exception of its wait (line 171), an exception of its
  click (lines 178 to 185), the results page it leads to and an exception of
  \<open>page.go_back\<close> (line 188).
\<close>

datatype file_results =
    FileResults "py_exception option" "py_exception option" "file_link list" bool "page_link list"
and page_link =
    PageLink "py_exception option" string "py_exception option" file_results "py_exception option"

text \<open>The state of the run: the log, whether \<open>scraped_data.csv\<close> exists, and the batches saved.\<close>

record court_state =
  court_log :: "log_entry list"
  court_csv_exists :: bool
  court_csv_writes :: "filing_record list list"

definition court_logged :: "level \<Rightarrow> string \<Rightarrow> court_state \<Rightarrow> court_state" where
  "court_logged lvl message s = s\<lparr>court_log := court_log s @ [(lvl, message)]\<rparr>"

text \<open>
  The body of the loop over the file links (lines 68 to 138), with the list
  \<open>scraped_data\<close> it appends to. The wait for the link, \<open>page.content\<close> and
  \<open>page.go_back\<close> are outside of every \<open>try\<close>.
\<close>

definition file_link_step ::
  "string \<Rightarrow> string \<Rightarrow> nat \<Rightarrow> file_link \<Rightarrow> filing_record list \<Rightarrow> court_state
     \<Rightarrow> py_exception option \<times> filing_record list \<times> court_state" where
  "file_link_step county_name month_name i link scraped_data s =
     (case link_wait_error link of
        Some e \<Rightarrow> (Some e, scraped_data, s)
      | None \<Rightarrow>
          (case link_text_content link of
             None \<Rightarrow>
               (None, scraped_data,
                court_logged WARNING
                  (''File Link not found for index '' @ str_nat (i + 1) @ '' of county: ''
                   @ county_name @ '' and month '' @ month_name @ ''. Skipping this file.'') s)
           | Some file_number \<Rightarrow>
               if file_number = [] then
                 (None, scraped_data,
                  court_logged WARNING
                    (''File Link not found for index '' @ str_nat (i + 1) @ '' of county: ''
                     @ county_name @ '' and month '' @ month_name @ ''. Skipping this file.'') s)
               else
                 (case click_error link of
                    Some e \<Rightarrow>
                      (None, scraped_data,
                       court_logged ERROR
                         (''Failed to click/navigate for File #: '' @ strip file_number
                          @ '' of county: '' @ county_name @ '' and month is: '' @ month_name
                          @ ''. Skipping. Error: '' @ exc_str e) s)
                  | None \<Rightarrow>
                      (case content_error link of
                         Some e \<Rightarrow> (Some e, scraped_data, s)
                       | None \<Rightarrow>
                           (case extraction link of
                              Inl (e, file_no) \<Rightarrow>
                                (None, scraped_data,
                                 court_logged ERROR
                                   (''Data extraction failed for File #: ''
                                    @ (case file_no of
                                         None \<Rightarrow> strip file_number
                                       | Some n \<Rightarrow> if n = [] then strip file_number else n)
                                    @ '' of county: '' @ county_name @ '' and month: ''
                                    @ month_name @ ''. Error: '' @ exc_str e) s)
                            | Inr attorney_info \<Rightarrow>
                                (case link_go_back_error link of
                                   Some e \<Rightarrow> (Some e, scraped_data @ [attorney_info], s)
                                 | None \<Rightarrow> (None, scraped_data @ [attorney_info], s)))))))"

fun file_links_loop ::
  "string \<Rightarrow> string \<Rightarrow> nat \<Rightarrow> file_link list \<Rightarrow> filing_record list \<Rightarrow> court_state
     \<Rightarrow> py_exception option \<times> filing_record list \<times> court_state" where
  "file_links_loop county_name month_name i [] scraped_data s = (None, scraped_data, s)"
| "file_links_loop county_name month_name i (link # rest) scraped_data s =
     (case file_link_step county_name month_name i link scraped_data s of
        (Some e, scraped1, s1) \<Rightarrow> (Some e, scraped1, s1)
      | (None, scraped1, s1) \<Rightarrow> file_links_loop county_name month_name (Suc i) rest scraped1 s1)"

definition court_base_url :: string where
  "court_base_url = ''https://websurrogates.nycourts.gov''"

text \<open>
  \<open>get_attorney_info\<close> and the loop of \<open>get_next_page\<close>, which call each other. A
  missing table is caught by \<open>except Exception\<close>; the wait for the first link is guarded
  by \<open>except TimeoutError\<close> only.
\<close>

fun court_get_attorney_info ::
  "string \<Rightarrow> string \<Rightarrow> file_results \<Rightarrow> filing_record list \<Rightarrow> court_state
     \<Rightarrow> py_exception option \<times> filing_record list \<times> court_state"
and page_links_loop ::
  "string \<Rightarrow> string \<Rightarrow> page_link list \<Rightarrow> filing_record list \<Rightarrow> court_state
     \<Rightarrow> py_exception option \<times> filing_record list \<times> court_state" where
  "court_get_attorney_info county_name month_name
       (FileResults table_error first_link_error links pagination_visible pages) scraped_data s =
     (case table_error of
        Some e \<Rightarrow>
          (None, scraped_data,
           court_logged WARNING
             ''File Search results table not found. Cannot proceed with scraping details.'' s)
      | None \<Rightarrow>
          (case first_link_error of
             Some e \<Rightarrow>
               if exc_class_of e = TimeoutError
               then (None, scraped_data,
                     court_logged ERROR
                       (''Timed out waiting for file result links: '' @ exc_str e
                        @ '' (Selector: #NameResultsTable .ButtonAsLink). Skipping this result set.'')
                       s)
               else (Some e, scraped_data, s)
           | None \<Rightarrow>
               (case file_links_loop county_name month_name 0 links scraped_data s of
                  (Some e, scraped1, s1) \<Rightarrow> (Some e, scraped1, s1)
                | (None, scraped1, s1) \<Rightarrow>
                    if pagination_visible
                    then page_links_loop county_name month_name pages scraped1 s1
                    else (None, scraped1, s1))))"
| "page_links_loop county_name month_name [] scraped_data s = (None, scraped_data, s)"
| "page_links_loop county_name month_name
       (PageLink wait_error href page_click_error target back_error # rest) scraped_data s =
     (case wait_error of
        Some e \<Rightarrow> (Some e, scraped_data, s)
      | None \<Rightarrow>
          (case page_click_error of
             Some e \<Rightarrow>
               page_links_loop county_name month_name rest scraped_data
                 (court_logged ERROR
                    (''Failed to navigate to page '' @ strip (court_base_url @ href)
                     @ '' for county: '' @ county_name @ '' and month: '' @ month_name
                     @ ''. Skipping. Error: '' @ exc_str e) s)
           | None \<Rightarrow>
               (case court_get_attorney_info county_name month_name target scraped_data s of
                  (Some e, scraped1, s1) \<Rightarrow> (Some e, scraped1, s1)
                | (None, scraped1, s1) \<Rightarrow>
                    (case back_error of
                       Some e \<Rightarrow> (Some e, scraped1, s1)
                     | None \<Rightarrow> page_links_loop county_name month_name rest scraped1 s1))))"

text \<open>
  What the browser does for one search of \<open>run\<close>: the outcome of each \<open>page.goto\<close>
  attempt, an exception raised while the form is filled and submitted (lines 294 to
  311), whether the message of no matching files is shown, and the results page.
\<close>

record month_search =
  goto_error :: "nat \<Rightarrow> py_exception option"
  search_error :: "py_exception option"
  no_results_found :: bool
  search_results :: file_results

record county_option =
  county_value :: string
  county_text :: string

record range_info =
  range_month_name :: string
  range_start_date :: string
  range_end_date :: string

text \<open>The browser: proceeding type, county value and month give the search.\<close>

type_synonym court_portal = "string \<Rightarrow> string \<Rightarrow> string \<Rightarrow> month_search"

definition max_navigation_retries :: nat where
  "max_navigation_retries = 3"

text \<open>
  The retry loop of lines 264 to 289: the first attempt that succeeds ends it; a failed
  attempt that is not the last one is logged as a warning, the last one is raised again.
\<close>

fun navigation_attempts ::
  "(nat \<Rightarrow> py_exception option) \<Rightarrow> nat \<Rightarrow> nat \<Rightarrow> court_state \<Rightarrow> py_exception option \<times> court_state" where
  "navigation_attempts goto attempt 0 s = (None, s)"
| "navigation_attempts goto attempt (Suc remaining) s =
     (case goto attempt of
        None \<Rightarrow> (None, s)
      | Some e \<Rightarrow>
          if attempt < max_navigation_retries - 1
          then navigation_attempts goto (Suc attempt) remaining
                 (court_logged WARNING ''Navigation failed. Retrying in 5s...'' s)
          else (Some e,
                court_logged CRITICAL
                  (''FATAL ERROR: Navigation failed after '' @ str_nat max_navigation_retries
                   @ '' attempts. Terminating script.'') s))"

text \<open>The body of the loop over \<open>monthly_ranges\<close> (lines 264 to 338).\<close>

definition month_step ::
  "court_portal \<Rightarrow> string \<Rightarrow> county_option \<Rightarrow> range_info \<Rightarrow> filing_record list \<Rightarrow> court_state
     \<Rightarrow> py_exception option \<times> filing_record list \<times> court_state" where
  "month_step browser proceeding_type_input county range_info scraped_data s =
     (let county_name = county_text county;
          found = browser proceeding_type_input (county_value county) (range_month_name range_info)
      in case navigation_attempts (goto_error found) 0 max_navigation_retries s of
           (Some e, s1) \<Rightarrow> (Some e, scraped_data, s1)
         | (None, s1) \<Rightarrow>
             (case search_error found of
                Some e \<Rightarrow> (Some e, scraped_data, s1)
              | None \<Rightarrow>
                  if no_results_found found then (None, scraped_data, s1)
                  else court_get_attorney_info county_name (range_month_name range_info)
                         (search_results found) scraped_data s1))"

fun months_loop ::
  "court_portal \<Rightarrow> string \<Rightarrow> county_option \<Rightarrow> range_info list \<Rightarrow> filing_record list \<Rightarrow> court_state
     \<Rightarrow> py_exception option \<times> filing_record list \<times> court_state" where
  "months_loop browser proceeding_type_input county [] scraped_data s = (None, scraped_data, s)"
| "months_loop browser proceeding_type_input county (range_info # rest) scraped_data s =
     (case month_step browser proceeding_type_input county range_info scraped_data s of
        (Some e, scraped1, s1) \<Rightarrow> (Some e, scraped1, s1)
      | (None, scraped1, s1) \<Rightarrow>
          months_loop browser proceeding_type_input county rest scraped1 s1)"

text \<open>
  \<open>NewyorkCourtScraper.save_to_csv\<close>: the batch is appended to the file in one call (the
  header row and an exception of the file system are not modelled).
\<close>

definition court_save_to_csv :: "filing_record list \<Rightarrow> court_state \<Rightarrow> court_state" where
  "court_save_to_csv scraped_data s =
     s\<lparr>court_csv_writes := court_csv_writes s @ [scraped_data], court_csv_exists := True\<rparr>"

text \<open>
  The body of the loop over \<open>all_countys\<close> (lines 259 to 348): \<open>scraped_data\<close> starts
  empty, the months are searched, and the batch is saved when it is not empty.
\<close>

definition county_step ::
  "court_portal \<Rightarrow> string \<Rightarrow> range_info list \<Rightarrow> county_option \<Rightarrow> court_state
     \<Rightarrow> py_exception option \<times> court_state" where
  "county_step browser proceeding_type_input monthly_ranges county s =
     (case months_loop browser proceeding_type_input county monthly_ranges [] s of
        (Some e, scraped_data, s1) \<Rightarrow> (Some e, s1)
      | (None, scraped_data, s1) \<Rightarrow>
          if scraped_data \<noteq> [] then (None, court_save_to_csv scraped_data s1)
          else (None, s1))"

fun counties_loop ::
  "court_portal \<Rightarrow> string \<Rightarrow> range_info list \<Rightarrow> county_option list \<Rightarrow> court_state
     \<Rightarrow> py_exception option \<times> court_state" where
  "counties_loop browser proceeding_type_input monthly_ranges [] s = (None, s)"
| "counties_loop browser proceeding_type_input monthly_ranges (county # rest) s =
     (case county_step browser proceeding_type_input monthly_ranges county s of
        (Some e, s1) \<Rightarrow> (Some e, s1)
      | (None, s1) \<Rightarrow> counties_loop browser proceeding_type_input monthly_ranges rest s1)"

text \<open>
  The \<open>while True\<close> loop over the two proceeding types (lines 243 to 348), with its
  counter \<open>count_proceeding_types\<close>; it ends when the counter exceeds 1.
\<close>

function proceeding_types_loop ::
  "court_portal \<Rightarrow> range_info list \<Rightarrow> county_option list \<Rightarrow> nat \<Rightarrow> court_state
     \<Rightarrow> py_exception option \<times> court_state" where
  "proceeding_types_loop browser monthly_ranges all_countys count_proceeding_types s =
     (let proceeding_type_input =
            (if count_proceeding_types = 1 then ''ADMINISTRATION PETITION''
             else ''PROBATE & PRELIMINARY PETITIONS'')
      in if count_proceeding_types > 1 then (None, s)
         else (case counties_loop browser proceeding_type_input monthly_ranges all_countys s of
                 (Some e, s1) \<Rightarrow> (Some e, s1)
               | (None, s1) \<Rightarrow>
                   proceeding_types_loop browser monthly_ranges all_countys
                     (count_proceeding_types + 1) s1))"
  by pat_completeness auto
termination
  by (relation "measure (\<lambda>(browser, monthly_ranges, all_countys, n, s). 2 - n)") auto

text \<open>
  \<open>NewyorkCourtScraper.run\<close> from the loop on: the guard around the whole run logs the
  exception and exits with status 1. The list \<open>monthly_ranges\<close> is the value of
  \<open>generate_monthly_ranges(2024)\<close> and \<open>all_countys\<close> the options of the county
  selector; both are parameters here.
\<close>

definition court_run ::
  "court_portal \<Rightarrow> range_info list \<Rightarrow> county_option list \<Rightarrow> court_state \<Rightarrow> nat \<times> court_state" where
  "court_run browser monthly_ranges all_countys s =
     (case proceeding_types_loop browser monthly_ranges all_countys 0 s of
        (Some e, s1) \<Rightarrow> (1, court_logged ERROR (''FATAL ERROR during execution: '' @ exc_str e) s1)
      | (None, s1) \<Rightarrow> (0, s1))"






section \<open>North Carolina: the case loop and the search loop\<close>

text \<open>
  The CaseEvents payload, with the fields \<open>get_pdf_files\<close> reads. Identifiers are
  kept as the strings an f-string prints for them.
\<close>

record parent_link =
  NodeID :: "string option"
  ParentID :: "string option"

record document_fragment =
  DocumentFragmentID :: "string option"

record document_version =
  DocumentFragments :: "document_fragment list"

record document =
  DocumentVersions :: "document_version list"
  DocumentTypeID_CodeID :: "string option"
  DocumentTypeID_Description :: "string option"
  DocumentName :: "string option"
  ParentLinks :: "parent_link list"

record case_event =
  Event_TypeId_Description :: "string option"
  Event_Documents :: "document list"

text \<open>The anchor \<open>.caseLink\<close> of a row of the results grid: its \<open>data-url\<close> and its text.\<close>

record nc_case =
  data_url :: string
  case_link_text :: string

text \<open>
  What the portal does for one search: an exception of one of the steps up to the click
  on the submit button (lines 61 to 80), the text of the banner paragraph once it is
  visible (or the exception of the wait, or \<open>None\<close> when \<open>is_visible\<close> is false), the
  rows of the grid (lines 102 to 134), and an exception of \<open>page.go_back\<close>.
\<close>

record search_response =
  submit_error :: "py_exception option"
  banner :: "py_exception + string option"
  cases_grid :: "py_exception + nc_case list"
  go_back_error :: "py_exception option"

text \<open>
  One HTTP attempt of \<open>download_file\<close>: the file is written to the end, or an exception
  is raised; the flag says whether the file had been opened for writing by then (an
  exception of \<open>requests.get\<close> or of \<open>raise_for_status\<close> comes before the \<open>open\<close>, an
  exception of \<open>iter_content\<close> after it).
\<close>

datatype attempt = Written | Failed bool py_exception

text \<open>
  Everything outside the script: the portal, the three JSON endpoints by URL (the
  payload part the script reads, or the exception raised by the request or by its
  decoding), and the document server by URL and attempt number.
\<close>

record nc_world =
  portal :: "string \<Rightarrow> search_response"
  case_summaries :: "string \<Rightarrow> py_exception + string option"
  parties_api :: "string \<Rightarrow> py_exception + party list"
  case_events_api :: "string \<Rightarrow> py_exception + case_event list"
  document_server :: "string \<Rightarrow> nat \<Rightarrow> attempt"

text \<open>
  The state of a run: \<open>self.scraped_data\<close>, the URLs requested with \<open>requests.get\<close>
  in order, the paths opened for writing by \<open>download_file\<close> in order (one entry for each
  \<open>open(filepath, "wb")\<close>), the log, the record numbers searched, and the tables handed
  to the CSV writer, one for each call of \<open>save_to_csv\<close>.
\<close>

record nc_state =
  scraped_data :: "case_record list"
  requested :: "string list"
  files_written :: "string list"
  nc_log :: "log_entry list"
  searched :: "string list"
  csv_saved :: "py_value list list list"

definition base_url :: string where
  "base_url = ''https://portal-nc.tylertech.cloud''"

text \<open>How an f-string prints an optional value.\<close>

definition py_str :: "string option \<Rightarrow> string" where
  "py_str v = (case v of None \<Rightarrow> ''None'' | Some s \<Rightarrow> s)"

definition index_error :: py_exception where
  "index_error = PyException IndexError ''list index out of range''"

text \<open>
  \<open>download_file\<close>: up to \<open>retries\<close> attempts; a \<open>ChunkedEncodingError\<close> or a
  \<open>ConnectionError\<close> is logged and the next attempt is made, any other exception leaves
  the function.
\<close>

fun download_attempts ::
  "nc_world \<Rightarrow> string \<Rightarrow> string \<Rightarrow> nat \<Rightarrow> nat \<Rightarrow> nat \<Rightarrow> nc_state
     \<Rightarrow> (py_exception + bool) \<times> nc_state" where
  "download_attempts w url filepath retries attempt 0 s = (Inr False, s)"
| "download_attempts w url filepath retries attempt (Suc remaining) s =
     (let s1 = s\<lparr>requested := requested s @ [url]\<rparr>
      in case document_server w url attempt of
           Written \<Rightarrow> (Inr True, s1\<lparr>files_written := files_written s1 @ [filepath]\<rparr>)
         | Failed opened e \<Rightarrow>
             (let s2 = (if opened then s1\<lparr>files_written := files_written s1 @ [filepath]\<rparr>
                        else s1)
              in if exc_class_of e = ChunkedEncodingError \<or> exc_class_of e = ConnectionError
                 then download_attempts w url filepath retries (Suc attempt) remaining
                        (s2\<lparr>nc_log := nc_log s2 @
                             [(ERROR, ''Download failed ('' @ exc_str e @ ''), retrying ''
                                      @ str_nat (attempt + 1) @ ''/'' @ str_nat retries
                                      @ ''...'')]\<rparr>)
                 else (Inl e, s2)))"

definition download_file ::
  "nc_world \<Rightarrow> string \<Rightarrow> string \<Rightarrow> nc_state \<Rightarrow> (py_exception + bool) \<times> nc_state" where
  "download_file w url filepath s = download_attempts w url filepath 2 0 2 s"

text \<open>
  The loop over \<open>parent_links\<close> (lines 258 to 274). \<open>pdf_found\<close> is assigned by every
  download; the loop ends at the first success.
\<close>

fun parent_links_loop ::
  "nc_world \<Rightarrow> (parent_link \<Rightarrow> string) \<Rightarrow> string \<Rightarrow> parent_link list \<Rightarrow> bool \<Rightarrow> nc_state
     \<Rightarrow> (py_exception + bool) \<times> nc_state" where
  "parent_links_loop w case_pdf_url file_path [] pdf_found s = (Inr pdf_found, s)"
| "parent_links_loop w case_pdf_url file_path (link # rest) pdf_found s =
     (case download_file w (case_pdf_url link) file_path s of
        (Inl e, s1) \<Rightarrow> (Inl e, s1)
      | (Inr found, s1) \<Rightarrow>
          if found then (Inr found, s1)
          else parent_links_loop w case_pdf_url file_path rest found s1)"

text \<open>The download URL of line 262, for the document values and one parent link.\<close>

definition case_pdf_url ::
  "string \<Rightarrow> string \<Rightarrow> string option \<Rightarrow> string option \<Rightarrow> string option \<Rightarrow> string option
     \<Rightarrow> string \<Rightarrow> parent_link \<Rightarrow> string" where
  "case_pdf_url base case_no doc_id doc_type_id doc_type doc_name event_name link =
     (let location_id = NodeID link;
          case_id = ParentID link
      in base @ ''/Portal//DocumentViewer/DisplayDoc?documentID='' @ py_str doc_id
           @ ''&caseNum='' @ case_no @ ''&locationId='' @ py_str location_id
           @ ''&caseId='' @ py_str case_id @ ''&docTypeId='' @ py_str doc_type_id
           @ ''&isVersionId=false&docType='' @ py_str doc_type
           @ ''&docName='' @ py_str doc_name @ ''&eventName='' @ event_name)"

text \<open>
  \<open>event.get("DocumentVersions", [])[0].get("DocumentFragments", [])[0]
  .get("DocumentFragmentID")\<close>: either index raises \<open>IndexError\<close> on an empty list.
\<close>

definition document_fragment_id :: "document \<Rightarrow> py_exception + string option" where
  "document_fragment_id event =
     (case DocumentVersions event of
        [] \<Rightarrow> Inl index_error
      | version # _ \<Rightarrow>
          (case DocumentFragments version of
             [] \<Rightarrow> Inl index_error
           | fragment # _ \<Rightarrow> Inr (DocumentFragmentID fragment)))"

definition pdf_folder :: string where
  "pdf_folder = ''Scraped Data/Scraped PDF's''"

text \<open>
  The body of the loop over \<open>all_case_events\<close> (lines 219 to 274), with the two
  variables the loop updates: \<open>pdf_found\<close> and \<open>files_downloaded\<close>; a \<open>continue\<close> leaves
  them as they are. \<open>"Bond" in event_name\<close> raises \<open>TypeError\<close> when the description is
  \<open>None\<close>.
\<close>

definition case_event_step ::
  "nc_world \<Rightarrow> string \<Rightarrow> case_event \<Rightarrow> bool \<Rightarrow> string list \<Rightarrow> nc_state
     \<Rightarrow> (py_exception + bool \<times> string list) \<times> nc_state" where
  "case_event_step w case_no case_event pdf_found files_downloaded s =
     (case Event_TypeId_Description case_event of
        None \<Rightarrow> (Inl (PyException TypeError ''argument of type NoneType is not iterable''), s)
      | Some event_name \<Rightarrow>
          if contains ''Bond'' event_name
          then (case Event_Documents case_event of
                  [] \<Rightarrow> (Inr (pdf_found, files_downloaded), s)
                | event # _ \<Rightarrow>
                    (case document_fragment_id event of
                       Inl e \<Rightarrow> (Inl e, s)
                     | Inr doc_id \<Rightarrow>
                         (let doc_type_id = DocumentTypeID_CodeID event;
                              doc_type = DocumentTypeID_Description event;
                              doc_name = DocumentName event;
                              event_name1 = replace ''/'' ''-Or-'' event_name;
                              formatted_file_name = strip (replace '' '' ''_'' event_name1)
                          in if formatted_file_name \<in> set files_downloaded
                             then (Inr (pdf_found, files_downloaded),
                                   s\<lparr>nc_log := nc_log s @
                                        [(INFO, formatted_file_name
                                                @ '' is already downloaded for case: '' @ case_no
                                                @ ''. Skipping this file.'')]\<rparr>)
                             else
                               (let filename = formatted_file_name @ ''.pdf'';
                                    file_path = pdf_folder @ ''/'' @ case_no @ ''/'' @ filename
                                in case parent_links_loop w
                                          (case_pdf_url base_url case_no doc_id doc_type_id
                                             doc_type doc_name event_name1)
                                          file_path (ParentLinks event) pdf_found s of
                                     (Inl e, s1) \<Rightarrow> (Inl e, s1)
                                   | (Inr found, s1) \<Rightarrow>
                                       (Inr (found, files_downloaded @ [formatted_file_name]),
                                        s1)))))
          else (Inr (pdf_found, files_downloaded), s))"

text \<open>The loop itself: an exception of the body ends it.\<close>

fun case_events_loop ::
  "nc_world \<Rightarrow> string \<Rightarrow> case_event list \<Rightarrow> bool \<Rightarrow> string list \<Rightarrow> nc_state
     \<Rightarrow> (py_exception + bool) \<times> nc_state" where
  "case_events_loop w case_no [] pdf_found files_downloaded s = (Inr pdf_found, s)"
| "case_events_loop w case_no (case_event # rest) pdf_found files_downloaded s =
     (case case_event_step w case_no case_event pdf_found files_downloaded s of
        (Inl e, s1) \<Rightarrow> (Inl e, s1)
      | (Inr (found, downloaded), s1) \<Rightarrow> case_events_loop w case_no rest found downloaded s1)"

text \<open>
  \<open>get_pdf_files\<close>: the request, the loop, and the handler of
  \<open>requests.RequestException\<close>, which returns \<open>False\<close>; any other exception leaves the
  function.
\<close>

definition get_pdf_files ::
  "nc_world \<Rightarrow> string \<Rightarrow> string \<Rightarrow> nc_state \<Rightarrow> (py_exception + bool) \<times> nc_state" where
  "get_pdf_files w case_pdf_api case_no s =
     (let s1 = s\<lparr>requested := requested s @ [case_pdf_api]\<rparr>;
          body = (case case_events_api w case_pdf_api of
                    Inl e \<Rightarrow> (Inl e, s1)
                  | Inr all_case_events \<Rightarrow> case_events_loop w case_no all_case_events False [] s1)
      in case body of
           (Inr pdf_found, s2) \<Rightarrow> (Inr pdf_found, s2)
         | (Inl e, s2) \<Rightarrow>
             if is_RequestException e
             then (Inr False,
                   s2\<lparr>nc_log := nc_log s2 @
                        [(ERROR, ''Request error when fetching case '' @ case_no
                                 @ '' PDF info: '' @ exc_str e @ ''.'')]\<rparr>)
             else (Inl e, s2))"

text \<open>
  \<open>get_attorney_info\<close>: the request and the handler of \<open>requests.RequestException\<close>,
  which returns the empty list.
\<close>

definition get_attorney_info ::
  "nc_world \<Rightarrow> string \<Rightarrow> nc_state \<Rightarrow> (py_exception + attorney_entry list) \<times> nc_state" where
  "get_attorney_info w case_url s =
     (let s1 = s\<lparr>requested := requested s @ [case_url]\<rparr>
      in case parties_api w case_url of
           Inr all_parties \<Rightarrow> (Inr (attorneys_of_parties all_parties), s1)
         | Inl e \<Rightarrow> if is_RequestException e then (Inr [], s1) else (Inl e, s1))"

text \<open>\<open>case_url.split("?id=")[1].split("&")[0]\<close>.\<close>

definition case_api_id_of :: "string \<Rightarrow> py_exception + string" where
  "case_api_id_of case_url =
     (case split_sep ''?id='' case_url of
        _ # second # _ \<Rightarrow>
          (case split_sep ''&'' second of
             [] \<Rightarrow> Inl index_error
           | first # _ \<Rightarrow> Inr first)
      | _ \<Rightarrow> Inl index_error)"

definition register_of_actions :: "string \<Rightarrow> string \<Rightarrow> string" where
  "register_of_actions service case_api_id =
     base_url @ ''/app/RegisterOfActionsService/'' @ service @ ''('' @ [CHR 0x27] @ case_api_id
       @ [CHR 0x27] @ '')?mode=portalembed&$top=50&$skip=0''"

definition small_estate :: string where
  "small_estate = ''Decedents' Estate - Small Estate''"

text \<open>The body of the loop of \<open>scrape_cases\<close> (lines 156 to 194). Nothing in it is guarded.\<close>

definition scrape_case :: "nc_world \<Rightarrow> nc_case \<Rightarrow> nc_state \<Rightarrow> py_exception option \<times> nc_state" where
  "scrape_case w c s =
     (let case_url = data_url c;
          case_no = case_link_text c
      in case case_api_id_of case_url of
           Inl e \<Rightarrow> (Some e, s)
         | Inr case_api_id \<Rightarrow>
             (let case_pdf_api = register_of_actions ''CaseEvents'' case_api_id;
                  complete_case_url = register_of_actions ''Parties'' case_api_id;
                  case_type_url = base_url @ ''/app/RegisterOfActionsService/CaseSummariesSlim?key=''
                                    @ case_api_id;
                  s1 = s\<lparr>requested := requested s @ [case_type_url]\<rparr>
              in case case_summaries w case_type_url of
                   Inl e \<Rightarrow> (Some e, s1)
                 | Inr check_case_type \<Rightarrow>
                     if check_case_type = Some small_estate
                     then (None,
                           s1\<lparr>nc_log := nc_log s1 @
                                [(INFO, ''Skipping the Case '' @ case_no
                                        @ '' because Case Type is: '' @ py_str check_case_type)]\<rparr>)
                     else
                       (case get_attorney_info w complete_case_url s1 of
                          (Inl e, s2) \<Rightarrow> (Some e, s2)
                        | (Inr attorney_info, s2) \<Rightarrow>
                            (case get_pdf_files w case_pdf_api case_no s2 of
                               (Inl e, s3) \<Rightarrow> (Some e, s3)
                             | (Inr pdf_found, s3) \<Rightarrow>
                                 (let new_dict =
                                        \<lparr>Case_Number = case_no, Case_Type = check_case_type,
                                         Attorney_Info = attorney_info,
                                         PDF_File = (if pdf_found then ''Found'' else ''Not Found'')\<rparr>
                                  in (None, s3\<lparr>scraped_data := scraped_data s3 @ [new_dict]\<rparr>))))))"

text \<open>\<open>scrape_cases\<close>: an exception of the body ends the loop and leaves the function.\<close>

fun scrape_cases :: "nc_world \<Rightarrow> nc_case list \<Rightarrow> nc_state \<Rightarrow> py_exception option \<times> nc_state" where
  "scrape_cases w [] s = (None, s)"
| "scrape_cases w (c # rest) s =
     (case scrape_case w c s of
        (Some e, s1) \<Rightarrow> (Some e, s1)
      | (None, s1) \<Rightarrow> scrape_cases w rest s1)"

text \<open>\<open>f"{record_num:02d}"\<close> and the search criterion of line 59.\<close>

definition format_02d :: "nat \<Rightarrow> string" where
  "format_02d n = (if n < 10 then ''0'' @ str_nat n else str_nat n)"

definition record_number_of :: "nat \<Rightarrow> string" where
  "record_number_of record_num = ''24E00'' @ format_02d record_num @ ''*''"

definition no_cases_banner :: "string option \<Rightarrow> bool" where
  "no_cases_banner message =
     (case message of
        None \<Rightarrow> False
      | Some inner_text \<Rightarrow> contains ''No cases match your search'' (strip inner_text))"


text \<open>
  The \<open>while True\<close> loop of \<open>run\<close> (lines 57 to 142). It has no bound of its own: it ends
  when a search shows the banner or when an exception leaves it, so the model is a
  partial function, \<open>None\<close> standing for a run that never ends.
\<close>

partial_function (option) search_loop ::
  "nc_world \<Rightarrow> nat \<Rightarrow> nc_state \<Rightarrow> (py_exception option \<times> nc_state) option" where
  "search_loop w record_num s =
     (let record_number = record_number_of record_num;
          s1 = s\<lparr>searched := searched s @ [record_number]\<rparr>;
          response = portal w record_number
      in case submit_error response of
           Some e \<Rightarrow> Some (Some e, s1)
         | None \<Rightarrow>
             (case banner response of
                Inl e \<Rightarrow> Some (Some e, s1)
              | Inr message \<Rightarrow>
                  if no_cases_banner message then Some (None, s1)
                  else
                    (case cases_grid response of
                       Inl e \<Rightarrow> Some (Some e, s1)
                     | Inr all_cases \<Rightarrow>
                         (case scrape_cases w all_cases s1 of
                            (Some e, s2) \<Rightarrow> Some (Some e, s2)
                          | (None, s2) \<Rightarrow>
                              (case go_back_error response of
                                 Some e \<Rightarrow> Some (Some e, s2)
                               | None \<Rightarrow> search_loop w (record_num + 2) s2)))))"


definition nc_initial :: nc_state where
  "nc_initial =
     \<lparr>scraped_data = [], requested = [], files_written = [], nc_log = [], searched = [],
      csv_saved = []\<rparr>"


text \<open>
  For the proofs: the second state differs from the first at most in the URLs requested,
  the files written and the log.
\<close>

definition lookups_only :: "nc_state \<Rightarrow> nc_state \<Rightarrow> bool" where
  "lookups_only s s' =
     (scraped_data s' = scraped_data s \<and> searched s' = searched s \<and> csv_saved s' = csv_saved s)"


text \<open>The search of a record number ends the loop: the submit succeeds and the banner is shown.\<close>

definition shows_no_cases :: "nc_world \<Rightarrow> string \<Rightarrow> bool" where
  "shows_no_cases w record_number =
     (submit_error (portal w record_number) = None
      \<and> (case banner (portal w record_number) of
            Inl e \<Rightarrow> False
          | Inr message \<Rightarrow> no_cases_banner message))"

text \<open>For the proofs: the number a string of decimal digits stands for.\<close>

definition digit_value :: "char \<Rightarrow> nat" where
  "digit_value c =
     (case map_of (zip ''0123456789'' [0, 1, 2, 3, 4, 5, 6, 7, 8, 9]) c of
        Some d \<Rightarrow> d
      | None \<Rightarrow> 0)"

definition decimal_value :: "string \<Rightarrow> nat" where
  "decimal_value digits = foldl (\<lambda>a c. 10 * a + digit_value c) 0 digits"






















section \<open>Example data\<close>

definition addr_no_city :: address where
  "addr_no_city =
     \<lparr>AddressLine1 = Some ''1 Main St'', AddressLine2 = None, AddressLine3 = None,
      AddressLine4 = None, City = Some '''', State = Some ''NC'', PostalCode = Some ''27601''\<rparr>"



definition case_three :: case_record where
  "case_three =
     \<lparr>Case_Number = ''24E000001-010'', Case_Type = Some ''Estate'',
      Attorney_Info =
        [\<lparr>AttorneyName = PyStr ''Ann Lee'', AttorneyAddress = PyList [''1 Main St, Raleigh, NC 27601'']\<rparr>,
         \<lparr>AttorneyName = PyStr ''Bo Diaz'', AttorneyAddress = PyStr ''''\<rparr>,
         \<lparr>AttorneyName = PyStr ''Cy Ford'', AttorneyAddress = PyStr ''''\<rparr>],
      PDF_File = ''Found''\<rparr>"

definition case_one :: case_record where
  "case_one =
     \<lparr>Case_Number = ''24E000002-010'', Case_Type = Some ''Estate'',
      Attorney_Info = [\<lparr>AttorneyName = PyStr ''Dee Roe'', AttorneyAddress = PyStr ''''\<rparr>],
      PDF_File = ''Not Found''\<rparr>"


definition no_address_attorney :: "string \<Rightarrow> attorney_json" where
  "no_address_attorney name = \<lparr>FormattedName = Some name, Addresses = []\<rparr>"

definition two_parties :: "party list" where
  "two_parties =
     [\<lparr>CasePartyAttorneys = [no_address_attorney ''Ann Lee'']\<rparr>,
      \<lparr>CasePartyAttorneys = [no_address_attorney ''Bo Diaz'', no_address_attorney ''Cy Ford'']\<rparr>]"

text \<open>A portal with one page of two cases, then the banner; the endpoints of the two cases.\<close>

definition small_case :: nc_case where
  "small_case = \<lparr>data_url = ''/app/RegisterOfActions/?id=A1&mode=portalembed'',
                  case_link_text = ''24E000001-010''\<rparr>"

definition estate_case :: nc_case where
  "estate_case = \<lparr>data_url = ''/app/RegisterOfActions/?id=B2&mode=portalembed'',
                   case_link_text = ''24E000002-010''\<rparr>"

definition bond_document :: document where
  "bond_document =
     \<lparr>DocumentVersions = [\<lparr>DocumentFragments = [\<lparr>DocumentFragmentID = Some ''901''\<rparr>]\<rparr>],
      DocumentTypeID_CodeID = Some ''77'', DocumentTypeID_Description = Some ''BOND'',
      DocumentName = Some ''Bond'',
      ParentLinks = [\<lparr>NodeID = Some ''10'', ParentID = Some ''555''\<rparr>,
                     \<lparr>NodeID = Some ''11'', ParentID = Some ''556''\<rparr>]\<rparr>"

definition two_bond_events :: "case_event list" where
  "two_bond_events =
     [\<lparr>Event_TypeId_Description = Some ''Bond Filed'', Event_Documents = [bond_document]\<rparr>,
      \<lparr>Event_TypeId_Description = Some ''Oath/Bond'', Event_Documents = [bond_document]\<rparr>]"

definition summary_url :: "string \<Rightarrow> string" where
  "summary_url case_api_id =
     ''https://portal-nc.tylertech.cloud/app/RegisterOfActionsService/CaseSummariesSlim?key=''
       @ case_api_id"

definition two_cases_page :: search_response where
  "two_cases_page = \<lparr>submit_error = None, banner = Inr (Some ''Cases''),
                    cases_grid = Inr [small_case, estate_case], go_back_error = None\<rparr>"

definition no_cases_page :: search_response where
  "no_cases_page = \<lparr>submit_error = None, banner = Inr (Some ''No cases match your search''),
                     cases_grid = Inr [], go_back_error = None\<rparr>"

definition example_world :: nc_world where
  "example_world =
     \<lparr>portal = (\<lambda>record_number. if record_number = ''24E0000*'' then two_cases_page
                                 else no_cases_page),
      case_summaries =
        (\<lambda>url. if url = summary_url ''A1'' then Inr (Some ''Decedents' Estate - Small Estate'')
               else if url = summary_url ''B2'' then Inr (Some ''Estate'')
               else Inl (PyException ConnectionError ''connection refused'')),
      parties_api = (\<lambda>url. Inr two_parties),
      case_events_api = (\<lambda>url. Inr two_bond_events),
      document_server = (\<lambda>url attempt. Written)\<rparr>"

text \<open>
  A portal that shows a page without cases for every record number except \<open>24E00110*\<close>,
  where it shows the banner.
\<close>

definition empty_page :: search_response where
  "empty_page = \<lparr>submit_error = None, banner = Inr (Some ''Cases''),
                cases_grid = Inr [], go_back_error = None\<rparr>"

definition long_world :: nc_world where
  "long_world =
     example_world\<lparr>portal := (\<lambda>record_number. if record_number = ''24E00110*''
                                                then no_cases_page else empty_page)\<rparr>"

























section \<open>Lemmas on first occurrences and initial segments\<close>

lemma upto_first_Nil [simp]: "upto_first P xs = [] \<longleftrightarrow> xs = []"
  by (cases xs) simp_all


lemma first_by_index:
  "first_by f seen xs =
     map (\<lambda>k. xs ! k)
       (filter (\<lambda>k. f (xs ! k) \<notin> set seen \<union> set (map f (take k xs))) [0..<length xs])"
proof (induction xs arbitrary: seen)
  case Nil
  show ?case by simp
next
  case (Cons x xs)
  have upt: "[0..<length (x # xs)] = 0 # map Suc [0..<length xs]"
    by (simp add: upt_conv_Cons map_Suc_upt del: upt_Suc)
  show ?case
  proof (cases "f x \<in> set seen")
    case True
    then have "insert (f x) (set seen) = set seen" by auto
    have "\<And>k. (f (xs ! k) \<notin> set seen \<and> f (xs ! k) \<noteq> f x \<and> f (xs ! k) \<notin> f ` set (take k xs))
            = (f (xs ! k) \<notin> set seen \<and> f (xs ! k) \<notin> f ` set (take k xs))"
      using True by auto
    with True show ?thesis
      unfolding upt by (simp add: filter_map comp_def Cons.IH [of seen])
  next
    case False
    then show ?thesis
      unfolding upt
      by (simp add: filter_map comp_def Cons.IH [of "seen @ [f x]"] conj_ac)
  qed
qed

lemma first_by_first_occurrences: "first_by f [] xs = first_occurrences f xs"
  by (simp add: first_by_index first_occurrences_def)




lemma first_by_append:
  "first_by f seen (xs @ ys)
     = first_by f seen xs @ first_by f (seen @ map f (first_by f seen xs)) ys"
proof (induction xs arbitrary: seen)
  case Nil
  show ?case by simp
next
  case (Cons x xs)
  show ?case
    by (simp add: Cons.IH)
qed


section \<open>What the lookups of the North Carolina run leave unchanged\<close>

lemma lookups_only_refl: "lookups_only s s"
  by (simp add: lookups_only_def)

lemma lookups_only_trans: "lookups_only s s1 \<Longrightarrow> lookups_only s1 s2 \<Longrightarrow> lookups_only s s2"
  by (simp add: lookups_only_def)

lemma download_attempts_lookups:
  "download_attempts w url fp r a n s = (res, s') \<Longrightarrow> lookups_only s s'"
proof (induction n arbitrary: a s)
  case 0
  then show ?case by (auto simp: lookups_only_def)
next
  case (Suc n)
  show ?case
  proof (cases "document_server w url a")
    case Written
    with Suc.prems show ?thesis by (auto simp: lookups_only_def Let_def)
  next
    case (Failed opened e)
    let ?s2 = "if opened
               then s\<lparr>requested := requested s @ [url],
                      files_written := files_written s @ [fp]\<rparr>
               else s\<lparr>requested := requested s @ [url]\<rparr>"
    have l2: "lookups_only s ?s2" by (simp add: lookups_only_def)
    show ?thesis
    proof (cases "exc_class_of e = ChunkedEncodingError \<or> exc_class_of e = ConnectionError")
      case True
      with Suc.prems Failed
      have "download_attempts w url fp r (Suc a) n
              (?s2\<lparr>nc_log := nc_log ?s2 @
                         [(ERROR, ''Download failed ('' @ exc_str e @ ''), retrying ''
                                  @ str_nat (a + 1) @ ''/'' @ str_nat r @ ''...'')]\<rparr>) = (res, s')"
        by (simp add: Let_def split: if_splits)
      from Suc.IH [OF this] show ?thesis by (simp add: lookups_only_def split: if_splits)
    next
      case False
      with Suc.prems Failed have "s' = ?s2" by (auto simp: Let_def)
      with l2 show ?thesis by simp
    qed
  qed
qed

lemma download_file_lookups:
  "download_file w url fp s = (res, s') \<Longrightarrow> lookups_only s s'"
  unfolding download_file_def by (rule download_attempts_lookups)

lemma parent_links_loop_lookups:
  "parent_links_loop w mk fp links pf s = (res, s') \<Longrightarrow> lookups_only s s'"
proof (induction links arbitrary: pf s)
  case Nil
  then show ?case by (auto simp: lookups_only_def)
next
  case (Cons link rest)
  obtain r s1 where d: "download_file w (mk link) fp s = (r, s1)"
    by (cases "download_file w (mk link) fp s")
  then have f: "lookups_only s s1" by (rule download_file_lookups)
  show ?case
  proof (cases r)
    case (Inl e)
    with Cons.prems d f show ?thesis by simp
  next
    case (Inr found)
    show ?thesis
    proof (cases found)
      case True
      with Cons.prems d f Inr show ?thesis by simp
    next
      case False
      with Cons.prems d Inr have "parent_links_loop w mk fp rest found s1 = (res, s')" by simp
      from Cons.IH [OF this] f show ?thesis by (rule lookups_only_trans [rotated])
    qed
  qed
qed

lemma case_event_step_lookups:
  "case_event_step w cn ev pf fd s = (res, s') \<Longrightarrow> lookups_only s s'"
  unfolding case_event_step_def Let_def
  by (auto split: option.splits list.splits sum.splits prod.splits if_splits
        dest: parent_links_loop_lookups simp: lookups_only_def)

lemma case_events_loop_lookups:
  "case_events_loop w cn evs pf fd s = (res, s') \<Longrightarrow> lookups_only s s'"
proof (induction evs arbitrary: pf fd s)
  case Nil
  then show ?case by (auto simp: lookups_only_def)
next
  case (Cons ev rest)
  obtain r s1 where d: "case_event_step w cn ev pf fd s = (r, s1)"
    by (cases "case_event_step w cn ev pf fd s")
  then have f: "lookups_only s s1" by (rule case_event_step_lookups)
  show ?case
  proof (cases r)
    case (Inl e)
    with Cons.prems d f show ?thesis by simp
  next
    case (Inr v)
    obtain found downloaded where v: "v = (found, downloaded)" by (cases v)
    with Cons.prems d Inr have "case_events_loop w cn rest found downloaded s1 = (res, s')" by simp
    from Cons.IH [OF this] f show ?thesis by (rule lookups_only_trans [rotated])
  qed
qed

lemma get_pdf_files_lookups:
  "get_pdf_files w api cn s = (res, s') \<Longrightarrow> lookups_only s s'"
  unfolding get_pdf_files_def Let_def
  by (auto split: sum.splits prod.splits if_splits
        dest!: case_events_loop_lookups simp: lookups_only_def)

lemma get_attorney_info_lookups:
  "get_attorney_info w url s = (res, s') \<Longrightarrow> lookups_only s s'"
  unfolding get_attorney_info_def Let_def
  by (auto split: sum.splits if_splits simp: lookups_only_def)


lemma scrape_case_data:
  assumes "scrape_case w c s = (r, s')"
  shows "searched s' = searched s \<and> csv_saved s' = csv_saved s
         \<and> (scraped_data s' = scraped_data s
              \<or> (\<exists>new_dict. scraped_data s' = scraped_data s @ [new_dict]
                    \<and> Case_Type new_dict \<noteq> Some small_estate))"
proof (cases "case_api_id_of (data_url c)")
  case (Inl e)
  with assms show ?thesis by (simp add: scrape_case_def)
next
  case (Inr cid)
  let ?url = "base_url @ ''/app/RegisterOfActionsService/CaseSummariesSlim?key='' @ cid"
  let ?s1 = "s\<lparr>requested := requested s @ [?url]\<rparr>"
  show ?thesis
  proof (cases "case_summaries w ?url")
    case (Inl e)
    with assms Inr show ?thesis by (auto simp: scrape_case_def Let_def)
  next
    case summary: (Inr check_case_type)
    show ?thesis
    proof (cases "check_case_type = Some small_estate")
      case True
      with assms Inr summary show ?thesis by (auto simp: scrape_case_def Let_def)
    next
      case False
      obtain a s2 where ga: "get_attorney_info w (register_of_actions ''Parties'' cid) ?s1 = (a, s2)"
        by (cases "get_attorney_info w (register_of_actions ''Parties'' cid) ?s1")
      from get_attorney_info_lookups [OF ga] have l2: "lookups_only s s2"
        by (simp add: lookups_only_def)
      show ?thesis
      proof (cases a)
        case (Inl e)
        with assms Inr summary False ga l2 show ?thesis
          by (auto simp: scrape_case_def Let_def lookups_only_def)
      next
        case att: (Inr attorney_info)
        obtain p s3 where gp:
          "get_pdf_files w (register_of_actions ''CaseEvents'' cid) (case_link_text c) s2 = (p, s3)"
          by (cases "get_pdf_files w (register_of_actions ''CaseEvents'' cid) (case_link_text c) s2")
        from get_pdf_files_lookups [OF gp] l2 have l3: "lookups_only s s3"
          by (simp add: lookups_only_def)
        show ?thesis
        proof (cases p)
          case (Inl e)
          with assms Inr summary False ga att gp l3 show ?thesis
            by (auto simp: scrape_case_def Let_def lookups_only_def)
        next
          case pdf: (Inr pdf_found)
          with assms Inr summary False ga att gp l3 show ?thesis
            by (auto simp: scrape_case_def Let_def lookups_only_def)
        qed
      qed
    qed
  qed
qed

lemma scrape_cases_data:
  assumes "scrape_cases w cs s = (r, s')"
  shows "searched s' = searched s \<and> csv_saved s' = csv_saved s
         \<and> ((\<forall>item \<in> set (scraped_data s). Case_Type item \<noteq> Some small_estate)
              \<longrightarrow> (\<forall>item \<in> set (scraped_data s'). Case_Type item \<noteq> Some small_estate))"
  using assms
proof (induction cs arbitrary: s)
  case Nil
  then show ?case by simp
next
  case (Cons c rest)
  obtain r1 s1 where d: "scrape_case w c s = (r1, s1)" by (cases "scrape_case w c s")
  note f = scrape_case_data [OF d]
  show ?case
  proof (cases r1)
    case (Some e)
    with Cons.prems d f show ?thesis by auto
  next
    case None
    with Cons.prems d have "scrape_cases w rest s1 = (r, s')" by simp
    from Cons.IH [OF this] f show ?thesis by auto
  qed
qed


section \<open>The search loop of the North Carolina run\<close>

text \<open>One pass of the loop either ends it or hands over to the next record number.\<close>

lemma search_loop_pass:
  "(\<exists>r s1. search_loop w m s = Some (r, s1)
        \<and> searched s1 = searched s @ [record_number_of m] \<and> csv_saved s1 = csv_saved s
        \<and> (r = None \<longrightarrow> shows_no_cases w (record_number_of m)))
   \<or> (\<not> shows_no_cases w (record_number_of m)
       \<and> (\<exists>s2. search_loop w m s = search_loop w (m + 2) s2
              \<and> searched s2 = searched s @ [record_number_of m] \<and> csv_saved s2 = csv_saved s))"
proof -
  let ?q = "record_number_of m"
  let ?s1 = "s\<lparr>searched := searched s @ [?q]\<rparr>"
  show ?thesis
  proof (cases "submit_error (portal w ?q)")
    case (Some e)
    then have "search_loop w m s = Some (Some e, ?s1)"
      by (subst search_loop.simps) (simp add: Let_def)
    then show ?thesis by simp
  next
    case None
    show ?thesis
    proof (cases "banner (portal w ?q)")
      case (Inl e)
      with None have "search_loop w m s = Some (Some e, ?s1)"
        by (subst search_loop.simps) (simp add: Let_def)
      then show ?thesis by simp
    next
      case (Inr message)
      show ?thesis
      proof (cases "no_cases_banner message")
        case True
        with None Inr have "search_loop w m s = Some (None, ?s1)"
          by (subst search_loop.simps) (simp add: Let_def)
        moreover from None Inr True have "shows_no_cases w ?q"
          by (simp add: shows_no_cases_def)
        ultimately show ?thesis by simp
      next
        case False
        with None Inr have nb: "\<not> shows_no_cases w ?q" by (simp add: shows_no_cases_def)
        show ?thesis
        proof (cases "cases_grid (portal w ?q)")
          case (Inl e)
          with None Inr False have "search_loop w m s = Some (Some e, ?s1)"
            by (subst search_loop.simps) (simp add: Let_def)
          then show ?thesis by simp
        next
          case grid: (Inr all_cases)
          obtain r s2 where sc: "scrape_cases w all_cases ?s1 = (r, s2)"
            by (cases "scrape_cases w all_cases ?s1")
          from scrape_cases_data [OF sc]
          have f: "searched s2 = searched s @ [?q]" "csv_saved s2 = csv_saved s" by simp_all
          show ?thesis
          proof (cases r)
            case (Some e)
            with None Inr False grid sc have "search_loop w m s = Some (Some e, s2)"
              by (subst search_loop.simps) (simp add: Let_def)
            with f show ?thesis by simp
          next
            case ok: None
            show ?thesis
            proof (cases "go_back_error (portal w ?q)")
              case (Some e)
              with None Inr False grid sc ok have "search_loop w m s = Some (Some e, s2)"
                by (subst search_loop.simps) (simp add: Let_def)
              with f show ?thesis by simp
            next
              case gb: None
              with None Inr False grid sc ok
              have "search_loop w m s = search_loop w (m + 2) s2"
                by (subst search_loop.simps) (simp add: Let_def)
              with f nb show ?thesis by blast
            qed
          qed
        qed
      qed
    qed
  qed
qed

lemma search_loop_returns:
  assumes "shows_no_cases w (record_number_of (2 * k))"
  shows "i \<le> k \<Longrightarrow> \<exists>r s'. search_loop w (2 * i) s = Some (r, s')
                   \<and> length (searched s') \<le> length (searched s) + (k - i) + 1"
proof (induction "k - i" arbitrary: i s)
  case 0
  then have "i = k" by simp
  with assms search_loop_pass [of w "2 * i" s] show ?case by auto
next
  case (Suc d)
  from search_loop_pass [of w "2 * i" s] show ?case
  proof
    assume "\<exists>r s1. search_loop w (2 * i) s = Some (r, s1)
        \<and> searched s1 = searched s @ [record_number_of (2 * i)] \<and> csv_saved s1 = csv_saved s
        \<and> (r = None \<longrightarrow> shows_no_cases w (record_number_of (2 * i)))"
    then show ?thesis by auto
  next
    assume "\<not> shows_no_cases w (record_number_of (2 * i))
       \<and> (\<exists>s2. search_loop w (2 * i) s = search_loop w (2 * i + 2) s2
              \<and> searched s2 = searched s @ [record_number_of (2 * i)] \<and> csv_saved s2 = csv_saved s)"
    then obtain s2 where s2: "search_loop w (2 * i) s = search_loop w (2 * Suc i) s2"
      "searched s2 = searched s @ [record_number_of (2 * i)]"
      by auto
    from Suc.hyps(2) Suc.prems have "d = k - Suc i" "Suc i \<le> k" by simp_all
    from Suc.hyps(1) [OF this, of s2]
    obtain r s' where "search_loop w (2 * Suc i) s2 = Some (r, s')"
      "length (searched s') \<le> length (searched s2) + (k - Suc i) + 1"
      by blast
    with s2 Suc.hyps(2) show ?thesis by auto
  qed
qed

lemma search_loop_trace:
  assumes "search_loop w0 m0 s0 = Some y0"
  shows "\<forall>i. m0 = 2 * i \<longrightarrow>
           (\<exists>n \<ge> i. searched (snd y0) = searched s0 @ map (\<lambda>k. record_number_of (2 * k)) [i ..< Suc n]
               \<and> csv_saved (snd y0) = csv_saved s0
               \<and> (fst y0 = None \<longrightarrow> shows_no_cases w0 (record_number_of (2 * n))
                     \<and> (\<forall>j. i \<le> j \<and> j < n \<longrightarrow> \<not> shows_no_cases w0 (record_number_of (2 * j)))))"
proof (rule search_loop.raw_induct
    [of "\<lambda>w m s y. \<forall>i. m = 2 * i \<longrightarrow>
           (\<exists>n \<ge> i. searched (snd y) = searched s @ map (\<lambda>k. record_number_of (2 * k)) [i ..< Suc n]
               \<and> csv_saved (snd y) = csv_saved s
               \<and> (fst y = None \<longrightarrow> shows_no_cases w (record_number_of (2 * n))
                     \<and> (\<forall>j. i \<le> j \<and> j < n \<longrightarrow> \<not> shows_no_cases w (record_number_of (2 * j)))))",
     OF _ assms])
  fix loop :: "nc_world \<Rightarrow> nat \<Rightarrow> nc_state \<Rightarrow> (py_exception option \<times> nc_state) option"
    and w m s y
  assume 1: "\<And>w m s y. loop w m s = Some y \<Longrightarrow>
           \<forall>i. m = 2 * i \<longrightarrow>
           (\<exists>n \<ge> i. searched (snd y) = searched s @ map (\<lambda>k. record_number_of (2 * k)) [i ..< Suc n]
               \<and> csv_saved (snd y) = csv_saved s
               \<and> (fst y = None \<longrightarrow> shows_no_cases w (record_number_of (2 * n))
                     \<and> (\<forall>j. i \<le> j \<and> j < n \<longrightarrow> \<not> shows_no_cases w (record_number_of (2 * j)))))"
    "(let record_number = record_number_of m;
          s1 = s\<lparr>searched := searched s @ [record_number]\<rparr>;
          response = portal w record_number
      in case submit_error response of
           Some e \<Rightarrow> Some (Some e, s1)
         | None \<Rightarrow>
             (case banner response of
                Inl e \<Rightarrow> Some (Some e, s1)
              | Inr message \<Rightarrow>
                  if no_cases_banner message then Some (None, s1)
                  else
                    (case cases_grid response of
                       Inl e \<Rightarrow> Some (Some e, s1)
                     | Inr all_cases \<Rightarrow>
                         (case scrape_cases w all_cases s1 of
                            (Some e, s2) \<Rightarrow> Some (Some e, s2)
                          | (None, s2) \<Rightarrow>
                              (case go_back_error response of
                                 Some e \<Rightarrow> Some (Some e, s2)
                               | None \<Rightarrow> loop w (m + 2) s2))))) = Some y"
  show "\<forall>i. m = 2 * i \<longrightarrow>
           (\<exists>n \<ge> i. searched (snd y) = searched s @ map (\<lambda>k. record_number_of (2 * k)) [i ..< Suc n]
               \<and> csv_saved (snd y) = csv_saved s
               \<and> (fst y = None \<longrightarrow> shows_no_cases w (record_number_of (2 * n))
                     \<and> (\<forall>j. i \<le> j \<and> j < n \<longrightarrow> \<not> shows_no_cases w (record_number_of (2 * j)))))"
  proof (intro allI impI)
    fix i assume m: "m = 2 * i"
    let ?q = "record_number_of m"
    let ?s1 = "s\<lparr>searched := searched s @ [?q]\<rparr>"
    have here: "searched s @ [?q] = searched s @ map (\<lambda>k. record_number_of (2 * k)) [i ..< Suc i]"
      using m by simp
    have stop: "\<exists>n \<ge> i. searched (snd y) = searched s @ map (\<lambda>k. record_number_of (2 * k)) [i ..< Suc n]
               \<and> csv_saved (snd y) = csv_saved s
               \<and> (fst y = None \<longrightarrow> shows_no_cases w (record_number_of (2 * n))
                     \<and> (\<forall>j. i \<le> j \<and> j < n \<longrightarrow> \<not> shows_no_cases w (record_number_of (2 * j))))"
      if "searched (snd y) = searched s @ [?q]" "csv_saved (snd y) = csv_saved s"
         "fst y = None \<longrightarrow> shows_no_cases w ?q"
    proof (intro exI [of _ i] conjI impI allI)
      show "i \<le> i" by simp
      show "searched (snd y) = searched s @ map (\<lambda>k. record_number_of (2 * k)) [i ..< Suc i]"
        using that(1) here by simp
      show "csv_saved (snd y) = csv_saved s" by (rule that(2))
      show "shows_no_cases w (record_number_of (2 * i))" if "fst y = None"
        using that \<open>fst y = None \<longrightarrow> shows_no_cases w ?q\<close> m by simp
      show "\<not> shows_no_cases w (record_number_of (2 * j))" if "i \<le> j \<and> j < i" for j
        using that by linarith
    qed
    show "\<exists>n \<ge> i. searched (snd y) = searched s @ map (\<lambda>k. record_number_of (2 * k)) [i ..< Suc n]
               \<and> csv_saved (snd y) = csv_saved s
               \<and> (fst y = None \<longrightarrow> shows_no_cases w (record_number_of (2 * n))
                     \<and> (\<forall>j. i \<le> j \<and> j < n \<longrightarrow> \<not> shows_no_cases w (record_number_of (2 * j))))"
    proof (cases "submit_error (portal w ?q)")
      case (Some e)
      with 1(2) have "y = (Some e, ?s1)" by (simp add: Let_def)
      then show ?thesis by (intro stop) simp_all
    next
      case None
      show ?thesis
      proof (cases "banner (portal w ?q)")
        case (Inl e)
        with None 1(2) have "y = (Some e, ?s1)" by (simp add: Let_def)
        then show ?thesis by (intro stop) simp_all
      next
        case (Inr message)
        show ?thesis
        proof (cases "no_cases_banner message")
          case True
          with None Inr 1(2) have "y = (None, ?s1)" by (simp add: Let_def)
          moreover from None Inr True have "shows_no_cases w ?q"
            by (simp add: shows_no_cases_def)
          ultimately show ?thesis by (intro stop) simp_all
        next
          case False
          with None Inr have nb: "\<not> shows_no_cases w ?q" by (simp add: shows_no_cases_def)
          show ?thesis
          proof (cases "cases_grid (portal w ?q)")
            case (Inl e)
            with None Inr False 1(2) have "y = (Some e, ?s1)" by (simp add: Let_def)
            then show ?thesis by (intro stop) simp_all
          next
            case grid: (Inr all_cases)
            obtain r s2 where sc: "scrape_cases w all_cases ?s1 = (r, s2)"
              by (cases "scrape_cases w all_cases ?s1")
            from scrape_cases_data [OF sc]
            have f: "searched s2 = searched s @ [?q]" "csv_saved s2 = csv_saved s" by simp_all
            show ?thesis
            proof (cases r)
              case (Some e)
              with None Inr False grid sc 1(2) have "y = (Some e, s2)" by (simp add: Let_def)
              with f show ?thesis by (intro stop) simp_all
            next
              case ok: None
              show ?thesis
              proof (cases "go_back_error (portal w ?q)")
                case (Some e)
                with None Inr False grid sc ok 1(2) have "y = (Some e, s2)" by (simp add: Let_def)
                with f show ?thesis by (intro stop) simp_all
              next
                case gb: None
                with None Inr False grid sc ok 1(2) have "loop w (m + 2) s2 = Some y"
                  by (simp add: Let_def)
                note ih = 1(1) [OF this]
                have "m + 2 = 2 * Suc i" using m by simp
                note ex = ih [rule_format, OF this]
                from ex obtain n where n0: "Suc i \<le> n \<and>
                    searched (snd y) = searched s2 @ map (\<lambda>k. record_number_of (2 * k)) [Suc i ..< Suc n]
                  \<and> csv_saved (snd y) = csv_saved s2
                  \<and> (fst y = None \<longrightarrow> shows_no_cases w (record_number_of (2 * n))
                     \<and> (\<forall>j. Suc i \<le> j \<and> j < n \<longrightarrow> \<not> shows_no_cases w (record_number_of (2 * j))))" ..
                note n = n0 [THEN conjunct1] n0 [THEN conjunct2, THEN conjunct1]
                  n0 [THEN conjunct2, THEN conjunct2, THEN conjunct1]
                  n0 [THEN conjunct2, THEN conjunct2, THEN conjunct2]
                have "[i ..< Suc n] = i # [Suc i ..< Suc n]"
                  using n(1) by (simp add: upt_conv_Cons)
                with n(2) f(1) m have A: "searched (snd y)
                      = searched s @ map (\<lambda>k. record_number_of (2 * k)) [i ..< Suc n]"
                  by simp
                have B: "fst y = None \<longrightarrow> shows_no_cases w (record_number_of (2 * n))
                     \<and> (\<forall>j. i \<le> j \<and> j < n \<longrightarrow> \<not> shows_no_cases w (record_number_of (2 * j)))"
                proof (intro impI conjI allI)
                  assume a: "fst y = None"
                  with n(4) show "shows_no_cases w (record_number_of (2 * n))" by simp
                  fix j assume j: "i \<le> j \<and> j < n"
                  show "\<not> shows_no_cases w (record_number_of (2 * j))"
                  proof (cases "j = i")
                    case True
                    with nb m show ?thesis by simp
                  next
                    case False
                    with j have "Suc i \<le> j \<and> j < n" by simp
                    with n(4) a show ?thesis by simp
                  qed
                qed
                have C: "i \<le> n" using n(1) by simp
                have D: "csv_saved (snd y) = csv_saved s" using n(3) f(2) by simp
                from C A D B show ?thesis by (intro exI [of _ n] conjI)
              qed
            qed
          qed
        qed
      qed
    qed
  qed
qed


section \<open>The example portal, step by step\<close>

lemma example_ids:
  "case_api_id_of (data_url small_case) = Inr ''A1''"
  "case_api_id_of (data_url estate_case) = Inr ''B2''"
  by (simp_all add: case_api_id_of_def small_case_def estate_case_def split_sep_def)

lemma example_record_numbers:
  "record_number_of 0 = ''24E0000*''" "record_number_of 2 = ''24E0002*''"
  by (simp_all add: record_number_of_def format_02d_def str_nat.simps)

lemma example_get_pdf_files:
  "get_pdf_files example_world (register_of_actions ''CaseEvents'' ''B2'') ''24E000002-010'' s
   = (Inr True,
      s\<lparr>requested := requested s @
           [register_of_actions ''CaseEvents'' ''B2'',
            ''https://portal-nc.tylertech.cloud/Portal//DocumentViewer/DisplayDoc?documentID=901&caseNum=24E000002-010&locationId=10&caseId=555&docTypeId=77&isVersionId=false&docType=BOND&docName=Bond&eventName=Bond Filed'',
            ''https://portal-nc.tylertech.cloud/Portal//DocumentViewer/DisplayDoc?documentID=901&caseNum=24E000002-010&locationId=10&caseId=555&docTypeId=77&isVersionId=false&docType=BOND&docName=Bond&eventName=Oath-Or-Bond''],
         files_written := files_written s @
           [''Scraped Data/Scraped PDF's/24E000002-010/Bond_Filed.pdf'',
            ''Scraped Data/Scraped PDF's/24E000002-010/Oath-Or-Bond.pdf'']\<rparr>)"
  by (simp add: get_pdf_files_def example_world_def two_bond_events_def bond_document_def
       case_event_step_def document_fragment_id_def replace_def strip_def is_space_def
       download_file_def case_pdf_url_def py_str_def pdf_folder_def base_url_def Let_def
       numeral_2_eq_2)

lemma example_attorneys:
  "attorneys_of_parties two_parties =
     [\<lparr>AttorneyName = PyStr ''Ann Lee'', AttorneyAddress = PyStr ''''\<rparr>,
      \<lparr>AttorneyName = PyStr ''Bo Diaz'', AttorneyAddress = PyStr ''''\<rparr>,
      \<lparr>AttorneyName = PyStr ''Cy Ford'', AttorneyAddress = PyStr ''''\<rparr>]"
  by (simp add: two_parties_def no_address_attorney_def attorneys_of_parties_def
        attorney_complete_info_def opt_value_def Let_def)

lemma example_small_case:
  "scrape_case example_world small_case s =
     (None, s\<lparr>requested := requested s @ [summary_url ''A1''],
              nc_log := nc_log s @
                [(INFO, ''Skipping the Case 24E000001-010 because Case Type is: Decedents' Estate - Small Estate'')]\<rparr>)"
  by (simp add: scrape_case_def example_ids Let_def example_world_def summary_url_def base_url_def
        small_estate_def py_str_def)
     (simp add: small_case_def)

lemma example_estate_case:
  "scrape_case example_world estate_case s =
     (None,
      s\<lparr>requested := requested s @
           [summary_url ''B2'', register_of_actions ''Parties'' ''B2'',
            register_of_actions ''CaseEvents'' ''B2'',
            ''https://portal-nc.tylertech.cloud/Portal//DocumentViewer/DisplayDoc?documentID=901&caseNum=24E000002-010&locationId=10&caseId=555&docTypeId=77&isVersionId=false&docType=BOND&docName=Bond&eventName=Bond Filed'',
            ''https://portal-nc.tylertech.cloud/Portal//DocumentViewer/DisplayDoc?documentID=901&caseNum=24E000002-010&locationId=10&caseId=555&docTypeId=77&isVersionId=false&docType=BOND&docName=Bond&eventName=Oath-Or-Bond''],
         files_written := files_written s @
           [''Scraped Data/Scraped PDF's/24E000002-010/Bond_Filed.pdf'',
            ''Scraped Data/Scraped PDF's/24E000002-010/Oath-Or-Bond.pdf''],
         scraped_data := scraped_data s @
           [\<lparr>Case_Number = ''24E000002-010'', Case_Type = Some ''Estate'',
             Attorney_Info = attorneys_of_parties two_parties, PDF_File = ''Found''\<rparr>]\<rparr>)"
proof -
  have n: "case_link_text estate_case = ''24E000002-010''" by (simp add: estate_case_def)
  have cs: "case_summaries example_world
              (base_url @ ''/app/RegisterOfActionsService/CaseSummariesSlim?key='' @ ''B2'')
            = Inr (Some ''Estate'')"
    by (simp add: example_world_def summary_url_def base_url_def)
  have ne: "Some ''Estate'' \<noteq> Some small_estate" by (simp add: small_estate_def)
  have ga: "\<And>t. get_attorney_info example_world (register_of_actions ''Parties'' ''B2'') t
          = (Inr (attorneys_of_parties two_parties),
             t\<lparr>requested := requested t @ [register_of_actions ''Parties'' ''B2'']\<rparr>)"
    by (simp add: get_attorney_info_def example_world_def Let_def)
  have su: "summary_url ''B2'' = base_url @ ''/app/RegisterOfActionsService/CaseSummariesSlim?key='' @ ''B2''"
    by (simp add: summary_url_def base_url_def)
  show ?thesis
    unfolding scrape_case_def Let_def example_ids n
    by (simp only: sum.case cs ne if_False ga example_get_pdf_files prod.case su) simp
qed

lemma example_page:
  "scrape_cases example_world [small_case, estate_case] s =
     (None,
      s\<lparr>requested := requested s @
           [summary_url ''A1'', summary_url ''B2'', register_of_actions ''Parties'' ''B2'',
            register_of_actions ''CaseEvents'' ''B2'',
            ''https://portal-nc.tylertech.cloud/Portal//DocumentViewer/DisplayDoc?documentID=901&caseNum=24E000002-010&locationId=10&caseId=555&docTypeId=77&isVersionId=false&docType=BOND&docName=Bond&eventName=Bond Filed'',
            ''https://portal-nc.tylertech.cloud/Portal//DocumentViewer/DisplayDoc?documentID=901&caseNum=24E000002-010&locationId=10&caseId=555&docTypeId=77&isVersionId=false&docType=BOND&docName=Bond&eventName=Oath-Or-Bond''],
         nc_log := nc_log s @
                [(INFO, ''Skipping the Case 24E000001-010 because Case Type is: Decedents' Estate - Small Estate'')],
         files_written := files_written s @
           [''Scraped Data/Scraped PDF's/24E000002-010/Bond_Filed.pdf'',
            ''Scraped Data/Scraped PDF's/24E000002-010/Oath-Or-Bond.pdf''],
         scraped_data := scraped_data s @
           [\<lparr>Case_Number = ''24E000002-010'', Case_Type = Some ''Estate'',
             Attorney_Info = attorneys_of_parties two_parties, PDF_File = ''Found''\<rparr>]\<rparr>)"
  by (simp add: example_small_case example_estate_case)

lemma example_search_loop:
  "search_loop example_world 0 s =
     Some (None,
      s\<lparr>requested := requested s @
           [summary_url ''A1'', summary_url ''B2'', register_of_actions ''Parties'' ''B2'',
            register_of_actions ''CaseEvents'' ''B2'',
            ''https://portal-nc.tylertech.cloud/Portal//DocumentViewer/DisplayDoc?documentID=901&caseNum=24E000002-010&locationId=10&caseId=555&docTypeId=77&isVersionId=false&docType=BOND&docName=Bond&eventName=Bond Filed'',
            ''https://portal-nc.tylertech.cloud/Portal//DocumentViewer/DisplayDoc?documentID=901&caseNum=24E000002-010&locationId=10&caseId=555&docTypeId=77&isVersionId=false&docType=BOND&docName=Bond&eventName=Oath-Or-Bond''],
         nc_log := nc_log s @
                [(INFO, ''Skipping the Case 24E000001-010 because Case Type is: Decedents' Estate - Small Estate'')],
         files_written := files_written s @
           [''Scraped Data/Scraped PDF's/24E000002-010/Bond_Filed.pdf'',
            ''Scraped Data/Scraped PDF's/24E000002-010/Oath-Or-Bond.pdf''],
         scraped_data := scraped_data s @
           [\<lparr>Case_Number = ''24E000002-010'', Case_Type = Some ''Estate'',
             Attorney_Info = attorneys_of_parties two_parties, PDF_File = ''Found''\<rparr>],
         searched := searched s @ [''24E0000*'', ''24E0002*'']\<rparr>)"
proof -
  have p0: "portal example_world ''24E0000*'' = two_cases_page"
    and p2: "portal example_world ''24E0002*'' = no_cases_page"
    by (simp_all add: example_world_def)
  have b: "no_cases_banner (Some ''No cases match your search'')"
          "\<not> no_cases_banner (Some ''Cases'')"
    by (simp_all add: no_cases_banner_def strip_def is_space_def)
  have two: "(0::nat) + 2 = 2" by simp
  show ?thesis
    apply (subst search_loop.simps)
    apply (simp only: Let_def example_record_numbers p0 two_cases_page_def search_response.simps
             option.case sum.case b if_False example_page prod.case two)
    apply (subst search_loop.simps)
    apply (simp only: Let_def example_record_numbers p2 no_cases_page_def search_response.simps
             option.case sum.case b if_True)
    apply simp
    done
qed


section \<open>What the searches of the New York court run leave unchanged\<close>









section \<open>The iterations of the New York attorney run\<close>







section \<open>The attorneys attributed to a North Carolina case\<close>

lemma record_attorneys_Nil: "record_attorneys n [] = {}"
  by (simp add: record_attorneys_def)

lemma record_attorneys_Cons:
  "record_attorneys n (p # ps) =
     (if n < length (CasePartyAttorneys p)
      then set (CasePartyAttorneys p) \<union> record_attorneys (length (CasePartyAttorneys p)) ps
      else record_attorneys n ps)"
proof -
  have split: "\<And>P. (\<exists>i < length (p # ps). P i) \<longleftrightarrow> P 0 \<or> (\<exists>i < length ps. P (Suc i))"
    by (auto simp: less_Suc_eq_0_disj)
  have all: "\<And>i Q. (\<forall>j < Suc i. Q j) \<longleftrightarrow> Q 0 \<and> (\<forall>j < i. Q (Suc j))"
    by (auto simp: less_Suc_eq_0_disj)
  show ?thesis
    unfolding record_attorneys_def split all
    by (auto simp: less_Suc_eq_0_disj)
qed

lemma attorney_loop_set:
  "set (attorney_loop infos acc) \<subseteq> set acc \<union> attorney_complete_info ` set infos"
proof (induction infos arbitrary: acc)
  case Nil
  then show ?case by simp
next
  case (Cons info rest)
  show ?case
  proof (cases "list_ex (\<lambda>key. AttorneyName key = AttorneyName (attorney_complete_info info)) acc")
    case True
    with Cons.IH [of acc] show ?thesis by (auto simp: Let_def)
  next
    case False
    with Cons.IH [of "acc @ [attorney_complete_info info]"] show ?thesis
      by (auto simp: Let_def)
  qed
qed

lemma attorney_loop_names:
  "AttorneyName ` set (attorney_loop infos acc) =
     AttorneyName ` set acc \<union> (\<lambda>a. AttorneyName (attorney_complete_info a)) ` set infos"
proof (induction infos arbitrary: acc)
  case Nil
  then show ?case by simp
next
  case (Cons info rest)
  show ?case
  proof (cases "list_ex (\<lambda>key. AttorneyName key = AttorneyName (attorney_complete_info info)) acc")
    case True
    then have "AttorneyName (attorney_complete_info info) \<in> AttorneyName ` set acc"
      by (auto simp: list_ex_iff intro: rev_image_eqI)
    with True show ?thesis by (auto simp: Let_def Cons.IH)
  next
    case False
    then show ?thesis by (auto simp: Let_def Cons.IH)
  qed
qed

lemma attorney_loop_distinct:
  "distinct (map AttorneyName acc) \<Longrightarrow> distinct (map AttorneyName (attorney_loop infos acc))"
proof (induction infos arbitrary: acc)
  case Nil
  then show ?case by simp
next
  case (Cons info rest)
  show ?case
  proof (cases "list_ex (\<lambda>key. AttorneyName key = AttorneyName (attorney_complete_info info)) acc")
    case True
    with Cons show ?thesis by (simp add: Let_def)
  next
    case False
    then have "AttorneyName (attorney_complete_info info) \<notin> AttorneyName ` set acc"
      by (auto simp: list_ex_iff)
    with Cons.prems have "distinct (map AttorneyName (acc @ [attorney_complete_info info]))"
      by simp
    from Cons.IH [OF this] False show ?thesis by (simp add: Let_def)
  qed
qed

lemma party_loop_set:
  "set (party_loop ps n acc) \<subseteq> set acc \<union> attorney_complete_info ` record_attorneys n ps"
proof (induction ps arbitrary: n acc)
  case Nil
  then show ?case by simp
next
  case (Cons p ps)
  show ?case
  proof (cases "n < length (CasePartyAttorneys p)")
    case True
    then have ne: "CasePartyAttorneys p \<noteq> []" by auto
    have "set (party_loop (p # ps) n acc)
            = set (party_loop ps (length (CasePartyAttorneys p)) (attorney_loop (CasePartyAttorneys p) acc))"
      using True ne by (simp add: Let_def)
    also have "\<dots> \<subseteq> set (attorney_loop (CasePartyAttorneys p) acc)
                 \<union> attorney_complete_info ` record_attorneys (length (CasePartyAttorneys p)) ps"
      by (rule Cons.IH)
    also have "\<dots> \<subseteq> set acc \<union> attorney_complete_info ` record_attorneys n (p # ps)"
      using attorney_loop_set [of "CasePartyAttorneys p" acc] True
      by (auto simp: record_attorneys_Cons)
    finally show ?thesis .
  next
    case False
    then have "party_loop (p # ps) n acc = party_loop ps n acc" by (simp add: Let_def)
    with Cons.IH [of n acc] False show ?thesis by (simp add: record_attorneys_Cons)
  qed
qed

lemma party_loop_names:
  "AttorneyName ` set (party_loop ps n acc) =
     AttorneyName ` set acc
     \<union> (\<lambda>a. AttorneyName (attorney_complete_info a)) ` record_attorneys n ps"
proof (induction ps arbitrary: n acc)
  case Nil
  then show ?case by (simp add: record_attorneys_Nil)
next
  case (Cons p ps)
  show ?case
  proof (cases "n < length (CasePartyAttorneys p)")
    case True
    then have ne: "CasePartyAttorneys p \<noteq> []" by auto
    have "party_loop (p # ps) n acc
            = party_loop ps (length (CasePartyAttorneys p)) (attorney_loop (CasePartyAttorneys p) acc)"
      using True ne by (simp add: Let_def)
    then show ?thesis
      using True by (simp add: Cons.IH attorney_loop_names record_attorneys_Cons Un_assoc image_Un)
  next
    case False
    then have "party_loop (p # ps) n acc = party_loop ps n acc" by (simp add: Let_def)
    with Cons.IH [of n acc] False show ?thesis by (simp add: record_attorneys_Cons)
  qed
qed

lemma party_loop_distinct:
  "distinct (map AttorneyName acc) \<Longrightarrow> distinct (map AttorneyName (party_loop ps n acc))"
  by (induction ps arbitrary: n acc) (simp_all add: Let_def attorney_loop_distinct)

lemma records_above_index:
  "records_above n ps =
     map (\<lambda>i. ps ! i)
       (filter (\<lambda>i. n < length (CasePartyAttorneys (ps ! i))
                   \<and> (\<forall>earlier \<in> set (take i ps).
                          length (CasePartyAttorneys earlier)
                            < length (CasePartyAttorneys (ps ! i))))
          [0..<length ps])"
proof (induction ps arbitrary: n)
  case Nil
  show ?case by simp
next
  case (Cons p ps)
  have upt: "[0..<length (p # ps)] = 0 # map Suc [0..<length ps]"
    by (simp add: upt_conv_Cons map_Suc_upt del: upt_Suc)
  show ?case
  proof (cases "n < length (CasePartyAttorneys p)")
    case True
    then have "\<And>k. (n < length (CasePartyAttorneys (ps ! k))
                   \<and> length (CasePartyAttorneys p) < length (CasePartyAttorneys (ps ! k))
                   \<and> (\<forall>earlier \<in> set (take k ps).
                          length (CasePartyAttorneys earlier)
                            < length (CasePartyAttorneys (ps ! k))))
              = (length (CasePartyAttorneys p) < length (CasePartyAttorneys (ps ! k))
                   \<and> (\<forall>earlier \<in> set (take k ps).
                          length (CasePartyAttorneys earlier)
                            < length (CasePartyAttorneys (ps ! k))))"
      by auto
    with True show ?thesis
      unfolding upt
      by (simp add: filter_map comp_def Cons.IH [of "length (CasePartyAttorneys p)"])
  next
    case False
    then have "\<And>k. (n < length (CasePartyAttorneys (ps ! k))
                   \<and> length (CasePartyAttorneys p) < length (CasePartyAttorneys (ps ! k))
                   \<and> (\<forall>earlier \<in> set (take k ps).
                          length (CasePartyAttorneys earlier)
                            < length (CasePartyAttorneys (ps ! k))))
              = (n < length (CasePartyAttorneys (ps ! k))
                   \<and> (\<forall>earlier \<in> set (take k ps).
                          length (CasePartyAttorneys earlier)
                            < length (CasePartyAttorneys (ps ! k))))"
      by auto
    with False show ?thesis
      unfolding upt by (simp add: filter_map comp_def Cons.IH [of n])
  qed
qed

lemma records_above_0: "records_above 0 ps = record_parties ps"
  by (simp add: records_above_index record_parties_def)

lemma attorney_loop_first_by:
  "attorney_loop infos acc
     = acc @ first_by AttorneyName (map AttorneyName acc) (map attorney_complete_info infos)"
proof (induction infos arbitrary: acc)
  case Nil
  show ?case by simp
next
  case (Cons info rest)
  have ex: "list_ex (\<lambda>key. AttorneyName key = AttorneyName (attorney_complete_info info)) acc
              \<longleftrightarrow> AttorneyName (attorney_complete_info info) \<in> set (map AttorneyName acc)"
    by (auto simp: list_ex_iff intro: rev_image_eqI)
  show ?case
  proof (cases "AttorneyName (attorney_complete_info info) \<in> set (map AttorneyName acc)")
    case True
    with ex have "attorney_loop (info # rest) acc = attorney_loop rest acc"
      by (simp add: Let_def del: set_map)
    with True show ?thesis by (simp add: Cons.IH del: set_map)
  next
    case False
    with ex have "attorney_loop (info # rest) acc
                    = attorney_loop rest (acc @ [attorney_complete_info info])"
      by (simp add: Let_def del: set_map)
    with False show ?thesis by (simp add: Cons.IH del: set_map)
  qed
qed

lemma party_loop_first_by:
  "party_loop ps n acc
     = acc @ first_by AttorneyName (map AttorneyName acc)
               (map attorney_complete_info (concat (map CasePartyAttorneys (records_above n ps))))"
proof (induction ps arbitrary: n acc)
  case Nil
  show ?case by simp
next
  case (Cons p ps)
  show ?case
  proof (cases "n < length (CasePartyAttorneys p)")
    case True
    then have ne: "CasePartyAttorneys p \<noteq> []" by auto
    have "party_loop (p # ps) n acc
            = party_loop ps (length (CasePartyAttorneys p))
                (attorney_loop (CasePartyAttorneys p) acc)"
      using True ne by (simp add: Let_def)
    then show ?thesis
      using True
      by (simp add: Cons.IH attorney_loop_first_by first_by_append)
  next
    case False
    then have "party_loop (p # ps) n acc = party_loop ps n acc" by (simp add: Let_def)
    with False show ?thesis by (simp add: Cons.IH)
  qed
qed


text \<open>
  C1 as stated fails: with a first party of one attorney and a second party of two, the
  list returned holds all three attorneys, not only the two of the greatest sub-list.
\<close>

theorem attorneys_of_parties_counterexample:
  "length (CasePartyAttorneys (two_parties ! 0)) < length (CasePartyAttorneys (two_parties ! 1))
   \<and> map AttorneyName (attorneys_of_parties two_parties)
       = [PyStr ''Ann Lee'', PyStr ''Bo Diaz'', PyStr ''Cy Ford'']
   \<and> map AttorneyName (map attorney_complete_info (CasePartyAttorneys (two_parties ! 1)))
       = [PyStr ''Bo Diaz'', PyStr ''Cy Ford'']
   \<and> attorneys_of_parties two_parties
       \<noteq> map attorney_complete_info (CasePartyAttorneys (two_parties ! 1))"
  by (simp add: two_parties_def no_address_attorney_def attorneys_of_parties_def
        attorney_complete_info_def opt_value_def Let_def)

text \<open>
  C1, as the code has it. \<open>get_attorney_info\<close> keeps one list \<open>attorneys\<close> for the whole
  case and appends to it the attorneys of every party that sets a record: a party with at
  least one attorney and with more attorneys than every party before it. The list
  returned is exactly the attorneys of these parties, in the order of the payload, each
  with its name and its formatted addresses, where of several entries of the same name
  only the first is kept. So the first party having the greatest count is one of the
  parties used, the parties after it add nothing, and an earlier party with a smaller
  count that was the greatest so far has its attorneys in the list as well.
\<close>

theorem attorneys_of_parties_record_parties:
  "attorneys_of_parties ps
     = first_occurrences AttorneyName
         (map attorney_complete_info (concat (map CasePartyAttorneys (record_parties ps))))
   \<and> set (attorneys_of_parties ps) \<subseteq>
     {attorney_complete_info a | a i. i < length ps \<and> a \<in> set (CasePartyAttorneys (ps ! i))
        \<and> (\<forall>j < i. length (CasePartyAttorneys (ps ! j)) < length (CasePartyAttorneys (ps ! i)))}
   \<and> AttorneyName ` set (attorneys_of_parties ps) =
     {opt_value (FormattedName a) | a i. i < length ps \<and> a \<in> set (CasePartyAttorneys (ps ! i))
        \<and> (\<forall>j < i. length (CasePartyAttorneys (ps ! j)) < length (CasePartyAttorneys (ps ! i)))}
   \<and> distinct (map AttorneyName (attorneys_of_parties ps))
   \<and> (\<forall>m < length ps.
         (\<forall>j < length ps. length (CasePartyAttorneys (ps ! j)) \<le> length (CasePartyAttorneys (ps ! m)))
         \<and> (\<forall>j < m. length (CasePartyAttorneys (ps ! j)) < length (CasePartyAttorneys (ps ! m)))
         \<longrightarrow> (\<lambda>a. opt_value (FormattedName a)) ` set (CasePartyAttorneys (ps ! m))
               \<subseteq> AttorneyName ` set (attorneys_of_parties ps))"
proof -
  have rec: "record_attorneys 0 ps =
     {a. \<exists>i < length ps. a \<in> set (CasePartyAttorneys (ps ! i))
        \<and> (\<forall>j < i. length (CasePartyAttorneys (ps ! j)) < length (CasePartyAttorneys (ps ! i)))}"
    unfolding record_attorneys_def by (auto simp: length_greater_0_conv [symmetric] simp del: length_greater_0_conv)
  have nm: "\<And>a. AttorneyName (attorney_complete_info a) = opt_value (FormattedName a)"
    by (simp add: attorney_complete_info_def)
  have 1: "set (attorneys_of_parties ps) \<subseteq>
     {attorney_complete_info a | a i. i < length ps \<and> a \<in> set (CasePartyAttorneys (ps ! i))
        \<and> (\<forall>j < i. length (CasePartyAttorneys (ps ! j)) < length (CasePartyAttorneys (ps ! i)))}"
    using party_loop_set [of ps 0 "[]"] unfolding attorneys_of_parties_def rec by fastforce
  have 2: "AttorneyName ` set (attorneys_of_parties ps) =
     {opt_value (FormattedName a) | a i. i < length ps \<and> a \<in> set (CasePartyAttorneys (ps ! i))
        \<and> (\<forall>j < i. length (CasePartyAttorneys (ps ! j)) < length (CasePartyAttorneys (ps ! i)))}"
    unfolding attorneys_of_parties_def party_loop_names rec nm by auto
  have 3: "distinct (map AttorneyName (attorneys_of_parties ps))"
    unfolding attorneys_of_parties_def by (rule party_loop_distinct) simp
  have 4: "\<forall>m < length ps.
         (\<forall>j < length ps. length (CasePartyAttorneys (ps ! j)) \<le> length (CasePartyAttorneys (ps ! m)))
         \<and> (\<forall>j < m. length (CasePartyAttorneys (ps ! j)) < length (CasePartyAttorneys (ps ! m)))
         \<longrightarrow> (\<lambda>a. opt_value (FormattedName a)) ` set (CasePartyAttorneys (ps ! m))
               \<subseteq> AttorneyName ` set (attorneys_of_parties ps)"
    unfolding 2 by auto
  have 0: "attorneys_of_parties ps
     = first_occurrences AttorneyName
         (map attorney_complete_info (concat (map CasePartyAttorneys (record_parties ps))))"
    by (simp add: attorneys_of_parties_def party_loop_first_by records_above_0
          first_by_first_occurrences)
  from 0 1 2 3 4 show ?thesis by (intro conjI)
qed

theorem attorneys_of_parties_record_parties_witness:
  "map AttorneyName (attorneys_of_parties two_parties)
     = [PyStr ''Ann Lee'', PyStr ''Bo Diaz'', PyStr ''Cy Ford'']
   \<and> record_parties two_parties = two_parties
   \<and> PyStr ''Bo Diaz'' \<in> AttorneyName ` set (attorneys_of_parties two_parties)
   \<and> PyStr ''Ann Lee'' \<in> AttorneyName ` set (attorneys_of_parties two_parties)
   \<and> distinct (map AttorneyName (attorneys_of_parties two_parties))"
proof -
  note t = attorneys_of_parties_record_parties [of two_parties]
  have len: "length two_parties = 2"
    "length (CasePartyAttorneys (two_parties ! 0)) = 1"
    "length (CasePartyAttorneys (two_parties ! 1)) = 2"
    by (simp_all add: two_parties_def)
  have all2: "\<And>P. (\<forall>j<2::nat. P j) \<longleftrightarrow> P 0 \<and> P 1"
    by (auto simp: less_2_cases_iff)
  have all1: "\<And>P. (\<forall>j<1::nat. P j) \<longleftrightarrow> P 0"
    by auto
  from t have "\<forall>m<length two_parties.
         (\<forall>j < length two_parties. length (CasePartyAttorneys (two_parties ! j))
                \<le> length (CasePartyAttorneys (two_parties ! m)))
         \<and> (\<forall>j < m. length (CasePartyAttorneys (two_parties ! j))
                < length (CasePartyAttorneys (two_parties ! m)))
         \<longrightarrow> (\<lambda>a. opt_value (FormattedName a)) ` set (CasePartyAttorneys (two_parties ! m))
               \<subseteq> AttorneyName ` set (attorneys_of_parties two_parties)"
    by blast
  then have "(\<forall>j < 2. length (CasePartyAttorneys (two_parties ! j))
                \<le> length (CasePartyAttorneys (two_parties ! 1)))
         \<and> (\<forall>j < 1. length (CasePartyAttorneys (two_parties ! j))
                < length (CasePartyAttorneys (two_parties ! 1)))
         \<longrightarrow> (\<lambda>a. opt_value (FormattedName a)) ` set (CasePartyAttorneys (two_parties ! 1))
               \<subseteq> AttorneyName ` set (attorneys_of_parties two_parties)"
    unfolding len(1) by (elim allE [of _ 1]) simp
  then have sub: "(\<lambda>a. opt_value (FormattedName a)) ` set (CasePartyAttorneys (two_parties ! 1))
               \<subseteq> AttorneyName ` set (attorneys_of_parties two_parties)"
    unfolding all2 all1 len by simp
  have "opt_value (FormattedName (no_address_attorney ''Bo Diaz''))
          \<in> (\<lambda>a. opt_value (FormattedName a)) ` set (CasePartyAttorneys (two_parties ! 1))"
    by (simp add: two_parties_def)
  with sub have bo: "PyStr ''Bo Diaz'' \<in> AttorneyName ` set (attorneys_of_parties two_parties)"
    by (auto simp: no_address_attorney_def opt_value_def)
  from t have eq: "AttorneyName ` set (attorneys_of_parties two_parties) =
     {opt_value (FormattedName a) | a i. i < length two_parties
        \<and> a \<in> set (CasePartyAttorneys (two_parties ! i))
        \<and> (\<forall>j < i. length (CasePartyAttorneys (two_parties ! j))
               < length (CasePartyAttorneys (two_parties ! i)))}"
    by blast
  have "PyStr ''Ann Lee'' \<in> AttorneyName ` set (attorneys_of_parties two_parties)"
    unfolding eq
    by (rule CollectI, rule exI [of _ "no_address_attorney ''Ann Lee''"], rule exI [of _ 0])
       (simp add: two_parties_def no_address_attorney_def opt_value_def)
  moreover from t have "distinct (map AttorneyName (attorneys_of_parties two_parties))"
    by blast
  moreover have rp: "record_parties two_parties = two_parties"
    by (simp add: record_parties_def two_parties_def)
  moreover from t have "attorneys_of_parties two_parties
     = first_occurrences AttorneyName
         (map attorney_complete_info
            (concat (map CasePartyAttorneys (record_parties two_parties))))"
    by (rule conjunct1)
  then have "map AttorneyName (attorneys_of_parties two_parties)
     = [PyStr ''Ann Lee'', PyStr ''Bo Diaz'', PyStr ''Cy Ford'']"
    unfolding rp
    by (simp add: two_parties_def first_occurrences_def no_address_attorney_def
          attorney_complete_info_def opt_value_def)
  ultimately show ?thesis using bo by simp
qed


section \<open>Errors of one item in the three runs\<close>



lemma errors_logged_append [simp]:
  "errors_logged (xs @ ys) = errors_logged xs @ errors_logged ys"
  by (simp add: errors_logged_def)














section \<open>When the CSV files are written\<close>








section \<open>PDF discovery of the North Carolina run\<close>

































section \<open>Address formatting of the North Carolina run\<close>

text \<open>
  C5. The claim says every empty component, an empty city, state or postal code included,
  is skipped, so that no separator stands next to an empty component. The code filters
  the four address lines and the location block, but builds the location block from the
  unfiltered city, state and postal code: with an empty city the formatted address holds
  a comma followed by a comma.
\<close>

theorem format_address_empty_city:
  "format_address addr_no_city = ''1 Main St, , NC 27601''"
  by (simp add: format_address_def addr_no_city_def get_default_def)

section \<open>Selection of the result link in the New York attorney run\<close>

lemma find_target_link_first:
  assumes "i < length links" "link_matches u (links ! i)"
    and "\<forall>j < i. \<not> link_matches u (links ! j)"
  shows "find_target_link u links k = Some (k + i, (INFO, ''Found exact match: '' @ upper (links ! i)))"
  using assms
proof (induction links arbitrary: i k)
  case Nil
  then show ?case by simp
next
  case (Cons l ls)
  show ?case
  proof (cases i)
    case 0
    with Cons.prems show ?thesis by simp
  next
    case (Suc i')
    with Cons.prems have no: "\<not> link_matches u l" by auto
    have "find_target_link u ls (Suc k)
            = Some (Suc k + i', (INFO, ''Found exact match: '' @ upper (ls ! i')))"
    proof (rule Cons.IH)
      show "i' < length ls" using Cons.prems Suc by simp
      show "link_matches u (ls ! i')" using Cons.prems Suc by simp
      show "\<forall>j < i'. \<not> link_matches u (ls ! j)"
      proof (intro allI impI)
        fix j assume "j < i'"
        then have "Suc j < i" using Suc by simp
        with Cons.prems(3) have "\<not> link_matches u ((l # ls) ! Suc j)" by blast
        then show "\<not> link_matches u (ls ! j)" by simp
      qed
    qed
    with no Suc show ?thesis by simp
  qed
qed

lemma find_target_link_none:
  "\<forall>l \<in> set links. \<not> link_matches u l \<Longrightarrow> find_target_link u links k = None"
  by (induction links arbitrary: k) simp_all

lemma tokens_john_smith: "split_ws (upper ''John Smith'') = [''JOHN'', ''SMITH'']"
  by (simp add: split_ws_def upper_def upper_char_def is_space_def)

lemma tokens_smith_john:
  "split_ws (replace '','' '' '' (upper ''Smith, John'')) = [''SMITH'', ''JOHN'']"
  by (simp add: split_ws_def replace_def upper_def upper_char_def is_space_def)

lemma tokens_smith_john_a:
  "split_ws (replace '','' '' '' (upper ''Smith, John A'')) = [''SMITH'', ''JOHN'', ''A'']"
  by (simp add: split_ws_def replace_def upper_def upper_char_def is_space_def)

lemma tokens_robert_jones: "split_ws (upper ''Robert Jones'') = [''ROBERT'', ''JONES'']"
  by (simp add: split_ws_def upper_def upper_char_def is_space_def)

lemma tokens_jones_robert_b:
  "split_ws (replace '','' '' '' (upper ''Jones, Robert B'')) = [''JONES'', ''ROBERT'', ''B'']"
  by (simp add: split_ws_def replace_def upper_def upper_char_def is_space_def)

lemma matches_smith_john: "link_matches (upper ''John Smith'') ''Smith, John''"
  unfolding link_matches_def Let_def tokens_john_smith tokens_smith_john
  by (simp add: insert_commute)

lemma no_match_smith_john_a: "\<not> link_matches (upper ''John Smith'') ''Smith, John A''"
proof -
  have "''A'' \<in> set [''SMITH'', ''JOHN'', ''A'']" by simp
  moreover have "''A'' \<notin> set [''JOHN'', ''SMITH'']" by simp
  ultimately have "set [''JOHN'', ''SMITH''] \<noteq> set [''SMITH'', ''JOHN'', ''A'']" by metis
  then show ?thesis
    unfolding link_matches_def Let_def tokens_john_smith tokens_smith_john_a .
qed

lemma no_match_jones: "\<not> link_matches (upper ''Robert Jones'') ''Jones, Robert B''"
proof -
  have "''B'' \<in> set [''JONES'', ''ROBERT'', ''B'']" by simp
  moreover have "''B'' \<notin> set [''ROBERT'', ''JONES'']" by simp
  ultimately have "set [''ROBERT'', ''JONES''] \<noteq> set [''JONES'', ''ROBERT'', ''B'']" by metis
  then show ?thesis
    unfolding link_matches_def Let_def tokens_robert_jones tokens_jones_robert_b .
qed

text \<open>
  C6. A result link matches when the set of whitespace-delimited tokens of the upper-case
  query equals the one of the upper-case link text, whose commas are replaced by spaces.
  The link clicked is the first matching link in document order, with the match logged;
  when no link matches, it is the first link, and a warning that names the fallback is
  logged. For the links \<open>Smith, John A\<close> and \<open>Smith, John\<close> and the query \<open>John Smith\<close> the
  second link is selected; for the only link \<open>Jones, Robert B\<close> and the query
  \<open>Robert Jones\<close> that link is selected with the warning.
\<close>

theorem select_link_exact_or_first:
  "(link_matches (upper q) l \<longleftrightarrow>
      set (split_ws (upper q)) = set (split_ws (replace '','' '' '' (upper l))))
   \<and> (\<forall>i < length links.
         link_matches (upper q) (links ! i) \<and> (\<forall>j < i. \<not> link_matches (upper q) (links ! j))
         \<longrightarrow> select_link q links
               = (Inr i, [(INFO, ''Found exact match: '' @ upper (links ! i))]))
   \<and> (links \<noteq> [] \<and> (\<forall>l \<in> set links. \<not> link_matches (upper q) l)
         \<longrightarrow> select_link q links
               = (Inr 0, [(WARNING, ''No exact match found for '' @ q
                                     @ ''. Clicking first result: '' @ links ! 0)]))
   \<and> select_link ''John Smith'' [''Smith, John A'', ''Smith, John'']
       = (Inr 1, [(INFO, ''Found exact match: SMITH, JOHN'')])
   \<and> select_link ''Robert Jones'' [''Jones, Robert B'']
       = (Inr 0, [(WARNING, ''No exact match found for Robert Jones. Clicking first result: Jones, Robert B'')])"
proof (intro conjI)
  show "link_matches (upper q) l \<longleftrightarrow>
      set (split_ws (upper q)) = set (split_ws (replace '','' '' '' (upper l)))"
    by (simp add: link_matches_def)
  show "\<forall>i < length links.
         link_matches (upper q) (links ! i) \<and> (\<forall>j < i. \<not> link_matches (upper q) (links ! j))
         \<longrightarrow> select_link q links
               = (Inr i, [(INFO, ''Found exact match: '' @ upper (links ! i))])"
    by (simp add: select_link_def find_target_link_first)
  show "links \<noteq> [] \<and> (\<forall>l \<in> set links. \<not> link_matches (upper q) l)
         \<longrightarrow> select_link q links
               = (Inr 0, [(WARNING, ''No exact match found for '' @ q
                                     @ ''. Clicking first result: '' @ links ! 0)])"
    by (cases links) (simp_all add: select_link_def find_target_link_none)
  show "select_link ''John Smith'' [''Smith, John A'', ''Smith, John'']
       = (Inr 1, [(INFO, ''Found exact match: SMITH, JOHN'')])"
  proof -
    have "upper ''Smith, John'' = ''SMITH, JOHN''"
      by (simp add: upper_def upper_char_def)
    then show ?thesis
      using matches_smith_john no_match_smith_john_a by (simp add: select_link_def)
  qed
  show "select_link ''Robert Jones'' [''Jones, Robert B'']
       = (Inr 0, [(WARNING, ''No exact match found for Robert Jones. Clicking first result: Jones, Robert B'')])"
    using no_match_jones by (simp add: select_link_def)
qed

theorem select_link_exact_or_first_witness:
  "link_matches (upper ''John Smith'') ''Smith, John''
   \<and> \<not> link_matches (upper ''John Smith'') ''Smith, John A''
   \<and> fst (select_link ''John Smith'' [''Smith, John A'', ''Smith, John'']) = Inr 1
   \<and> \<not> link_matches (upper ''Robert Jones'') ''Jones, Robert B''
   \<and> fst (select_link ''Robert Jones'' [''Jones, Robert B'']) = Inr 0"
proof -
  note t1 = select_link_exact_or_first
              [of "''John Smith''" "''Smith, John''" "[''Smith, John A'', ''Smith, John'']"]
  note t2 = select_link_exact_or_first
              [of "''Robert Jones''" "''Jones, Robert B''" "[''Jones, Robert B'']"]
  have m: "link_matches (upper ''John Smith'') ''Smith, John''"
    by (rule matches_smith_john)
  have n: "\<not> link_matches (upper ''John Smith'') ''Smith, John A''"
    by (rule no_match_smith_john_a)
  have r: "\<not> link_matches (upper ''Robert Jones'') ''Jones, Robert B''"
    by (rule no_match_jones)
  from t1 have a: "\<forall>i < length [''Smith, John A'', ''Smith, John''].
         link_matches (upper ''John Smith'') ([''Smith, John A'', ''Smith, John''] ! i)
         \<and> (\<forall>j < i. \<not> link_matches (upper ''John Smith'') ([''Smith, John A'', ''Smith, John''] ! j))
         \<longrightarrow> select_link ''John Smith'' [''Smith, John A'', ''Smith, John'']
               = (Inr i, [(INFO, ''Found exact match: '' @ upper ([''Smith, John A'', ''Smith, John''] ! i))])"
    by blast
  have h1: "(1::nat) < length [''Smith, John A'', ''Smith, John'']" by simp
  have h2: "link_matches (upper ''John Smith'') ([''Smith, John A'', ''Smith, John''] ! 1)"
    using m by simp
  have h3: "\<forall>j < (1::nat). \<not> link_matches (upper ''John Smith'') ([''Smith, John A'', ''Smith, John''] ! j)"
    using n by simp
  from a h1 h2 h3 have "select_link ''John Smith'' [''Smith, John A'', ''Smith, John'']
               = (Inr 1, [(INFO, ''Found exact match: '' @ upper ([''Smith, John A'', ''Smith, John''] ! 1))])"
    by blast
  then have s1: "fst (select_link ''John Smith'' [''Smith, John A'', ''Smith, John'']) = Inr 1"
    by simp
  have g: "[''Jones, Robert B''] \<noteq> [] \<and> (\<forall>l \<in> set [''Jones, Robert B'']. \<not> link_matches (upper ''Robert Jones'') l)"
    using r by simp
  with t2 have "select_link ''Robert Jones'' [''Jones, Robert B'']
               = (Inr 0, [(WARNING, ''No exact match found for '' @ ''Robert Jones''
                                     @ ''. Clicking first result: '' @ [''Jones, Robert B''] ! 0)])"
    by blast
  then have s2: "fst (select_link ''Robert Jones'' [''Jones, Robert B'']) = Inr 0"
    by simp
  from m n r s1 s2 show ?thesis by blast
qed


section \<open>Name normalisation of the New York attorney run\<close>



lemma assign_names_other:
  "length c \<noteq> 2 \<Longrightarrow> length c \<noteq> 3 \<Longrightarrow> length c \<noteq> 4 \<Longrightarrow>
     assign_names c = \<lparr>first_name = None, middle_name = None, last_name = None\<rparr>"
  by (simp add: assign_names_def)






section \<open>The CSV schema of the North Carolina run\<close>

lemma max_attorneys_loop_fold:
  "max_attorneys_loop xs m = fold max (map (\<lambda>item. length (Attorney_Info item)) xs) m"
  by (induction xs arbitrary: m) (simp_all add: max.commute)

lemma get_max_attorneys_in_batch_Max:
  "get_max_attorneys_in_batch batch = Max (insert 0 ((\<lambda>item. length (Attorney_Info item)) ` set batch))"
proof -
  have "Max (set (0 # map (\<lambda>item. length (Attorney_Info item)) batch))
          = fold max (map (\<lambda>item. length (Attorney_Info item)) batch) 0"
    by (rule Max.set_eq_fold)
  then show ?thesis
    by (simp add: get_max_attorneys_in_batch_def max_attorneys_loop_fold)
qed

lemma attorney_count_le_max:
  assumes "item \<in> set batch"
  shows "length (Attorney_Info item) \<le> get_max_attorneys_in_batch batch"
  unfolding get_max_attorneys_in_batch_Max using assms by (intro Max_ge) auto

lemma attorney_headers_Suc:
  "attorney_headers (Suc m) =
     attorney_headers m @ [''Attorney Name '' @ str_nat (Suc m), ''Attorney Address '' @ str_nat (Suc m)]"
  by (simp add: attorney_headers_def)

lemma length_attorney_headers: "length (attorney_headers m) = 2 * m"
  by (induction m) (simp_all add: attorney_headers_Suc, simp add: attorney_headers_def)

lemma attorney_headers_nth:
  "i < m \<Longrightarrow> attorney_headers m ! (2 * i) = ''Attorney Name '' @ str_nat (Suc i)
     \<and> attorney_headers m ! (2 * i + 1) = ''Attorney Address '' @ str_nat (Suc i)"
proof (induction m)
  case 0
  then show ?case by simp
next
  case (Suc m)
  show ?case
  proof (cases "i < m")
    case True
    with Suc.IH show ?thesis
      by (simp add: attorney_headers_Suc nth_append length_attorney_headers)
  next
    case False
    with Suc.prems have "i = m" by simp
    then show ?thesis
      by (simp add: attorney_headers_Suc nth_append length_attorney_headers)
  qed
qed

lemma length_flattened_attorneys:
  "length (flattened_attorneys item) = 2 * length (Attorney_Info item)"
  by (simp add: flattened_attorneys_def length_concat comp_def sum_list_triv)

lemma data_row_padded:
  assumes "length (Attorney_Info item) \<le> m"
  shows "data_row (length (attorney_headers m)) item =
           [PyStr (Case_Number item), opt_value (Case_Type item), PyStr (PDF_File item)]
           @ flattened_attorneys item
           @ replicate (2 * (m - length (Attorney_Info item))) (PyStr '''')"
proof -
  have "nat (int (2 * m) - int (2 * length (Attorney_Info item)))
          = 2 * (m - length (Attorney_Info item))"
    using assms by simp
  then show ?thesis
    by (simp add: data_row_def length_attorney_headers length_flattened_attorneys)
qed

lemma length_data_row:
  assumes "length (Attorney_Info item) \<le> m"
  shows "length (data_row (length (attorney_headers m)) item) = 3 + 2 * m"
  using assms by (simp add: data_row_padded length_flattened_attorneys)

lemma length_final_headers:
  "length (final_headers batch) = 3 + 2 * get_max_attorneys_in_batch batch"
  by (simp add: final_headers_def base_headers_def length_attorney_headers)

lemma csv_rows_width:
  assumes "row \<in> set (csv_rows batch)"
  shows "length row = 3 + 2 * get_max_attorneys_in_batch batch"
proof -
  from assms consider "row = map PyStr (final_headers batch)"
    | item where "item \<in> set batch"
        "row = data_row (length (attorney_headers (get_max_attorneys_in_batch batch))) item"
    by (auto simp: csv_rows_def data_rows_def)
  then show ?thesis
  proof cases
    case 1
    then show ?thesis by (simp add: length_final_headers)
  next
    case 2
    then show ?thesis by (simp add: length_data_row attorney_count_le_max)
  qed
qed

text \<open>
  C8. Every row \<open>save_to_csv\<close> writes, the header and the data rows alike, has
  \<open>3 + 2 * M\<close> columns, where \<open>M\<close> is the greatest number of attorneys of a record of
  the batch (0 for an empty batch). The header holds the pairs
  \<open>Attorney Name i\<close>, \<open>Attorney Address i\<close> for \<open>i = 1 .. M\<close> after the three base
  columns, and the row of a record with \<open>k\<close> attorneys is its three base cells, its
  \<open>2 * k\<close> attorney cells and \<open>2 * (M - k)\<close> empty strings. With a record of three
  attorneys and a record of one, the header has three pairs and the row of the second
  ends with four empty cells.
\<close>

theorem save_to_csv_uniform_width:
  "(\<forall>row \<in> set (csv_rows batch). length row = 3 + 2 * get_max_attorneys_in_batch batch)
   \<and> get_max_attorneys_in_batch batch
       = Max (insert 0 ((\<lambda>item. length (Attorney_Info item)) ` set batch))
   \<and> length (csv_rows batch) = 1 + length batch
   \<and> (\<forall>i < get_max_attorneys_in_batch batch.
         csv_rows batch ! 0 ! (3 + 2 * i) = PyStr (''Attorney Name '' @ str_nat (i + 1))
       \<and> csv_rows batch ! 0 ! (3 + 2 * i + 1) = PyStr (''Attorney Address '' @ str_nat (i + 1)))
   \<and> (\<forall>j < length batch.
         csv_rows batch ! (j + 1) =
           [PyStr (Case_Number (batch ! j)), opt_value (Case_Type (batch ! j)),
            PyStr (PDF_File (batch ! j))]
           @ flattened_attorneys (batch ! j)
           @ replicate (2 * (get_max_attorneys_in_batch batch - length (Attorney_Info (batch ! j))))
               (PyStr ''''))
   \<and> (length (Attorney_Info c3) = 3 \<and> length (Attorney_Info c1) = 1 \<longrightarrow>
         final_headers [c3, c1] =
           [''Case Number'', ''Case Type'', ''PDF File'',
            ''Attorney Name 1'', ''Attorney Address 1'',
            ''Attorney Name 2'', ''Attorney Address 2'',
            ''Attorney Name 3'', ''Attorney Address 3'']
       \<and> final_headers [c1, c3] = final_headers [c3, c1]
       \<and> length (data_rows [c3, c1] ! 1) = 9
       \<and> drop 5 (data_rows [c3, c1] ! 1) = replicate 4 (PyStr '''')
       \<and> drop 5 (data_rows [c1, c3] ! 0) = replicate 4 (PyStr ''''))"
proof (intro conjI)
  show "\<forall>row \<in> set (csv_rows batch). length row = 3 + 2 * get_max_attorneys_in_batch batch"
    by (simp add: csv_rows_width)
  show "get_max_attorneys_in_batch batch
       = Max (insert 0 ((\<lambda>item. length (Attorney_Info item)) ` set batch))"
    by (rule get_max_attorneys_in_batch_Max)
  show "length (csv_rows batch) = 1 + length batch"
    by (simp add: csv_rows_def data_rows_def)
  show "\<forall>i < get_max_attorneys_in_batch batch.
         csv_rows batch ! 0 ! (3 + 2 * i) = PyStr (''Attorney Name '' @ str_nat (i + 1))
       \<and> csv_rows batch ! 0 ! (3 + 2 * i + 1) = PyStr (''Attorney Address '' @ str_nat (i + 1))"
  proof (intro allI impI)
    fix i assume i: "i < get_max_attorneys_in_batch batch"
    have len: "3 + 2 * i + 1 < length (final_headers batch)" "3 + 2 * i < length (final_headers batch)"
      using i by (simp_all add: length_final_headers)
    have "final_headers batch ! (3 + 2 * i) = ''Attorney Name '' @ str_nat (Suc i)"
         "final_headers batch ! (3 + 2 * i + 1) = ''Attorney Address '' @ str_nat (Suc i)"
      using attorney_headers_nth [OF i]
      by (simp_all add: final_headers_def base_headers_def nth_append)
    with len show "csv_rows batch ! 0 ! (3 + 2 * i) = PyStr (''Attorney Name '' @ str_nat (i + 1))
       \<and> csv_rows batch ! 0 ! (3 + 2 * i + 1) = PyStr (''Attorney Address '' @ str_nat (i + 1))"
      by (simp add: csv_rows_def)
  qed
  show "\<forall>j < length batch.
         csv_rows batch ! (j + 1) =
           [PyStr (Case_Number (batch ! j)), opt_value (Case_Type (batch ! j)),
            PyStr (PDF_File (batch ! j))]
           @ flattened_attorneys (batch ! j)
           @ replicate (2 * (get_max_attorneys_in_batch batch - length (Attorney_Info (batch ! j))))
               (PyStr '''')"
  proof (intro allI impI)
    fix j assume j: "j < length batch"
    then have "length (Attorney_Info (batch ! j)) \<le> get_max_attorneys_in_batch batch"
      by (simp add: attorney_count_le_max)
    from data_row_padded [OF this] j
    show "csv_rows batch ! (j + 1) =
           [PyStr (Case_Number (batch ! j)), opt_value (Case_Type (batch ! j)),
            PyStr (PDF_File (batch ! j))]
           @ flattened_attorneys (batch ! j)
           @ replicate (2 * (get_max_attorneys_in_batch batch - length (Attorney_Info (batch ! j))))
               (PyStr '''')"
      by (simp add: csv_rows_def data_rows_def)
  qed
  show "length (Attorney_Info c3) = 3 \<and> length (Attorney_Info c1) = 1 \<longrightarrow>
         final_headers [c3, c1] =
           [''Case Number'', ''Case Type'', ''PDF File'',
            ''Attorney Name 1'', ''Attorney Address 1'',
            ''Attorney Name 2'', ''Attorney Address 2'',
            ''Attorney Name 3'', ''Attorney Address 3'']
       \<and> final_headers [c1, c3] = final_headers [c3, c1]
       \<and> length (data_rows [c3, c1] ! 1) = 9
       \<and> drop 5 (data_rows [c3, c1] ! 1) = replicate 4 (PyStr '''')
       \<and> drop 5 (data_rows [c1, c3] ! 0) = replicate 4 (PyStr '''')"
  proof
    assume a: "length (Attorney_Info c3) = 3 \<and> length (Attorney_Info c1) = 1"
    then have m: "get_max_attorneys_in_batch [c3, c1] = 3" "get_max_attorneys_in_batch [c1, c3] = 3"
      by (simp_all add: get_max_attorneys_in_batch_def)
    have h: "attorney_headers 3 = [''Attorney Name 1'', ''Attorney Address 1'',
            ''Attorney Name 2'', ''Attorney Address 2'',
            ''Attorney Name 3'', ''Attorney Address 3'']"
      by (simp add: attorney_headers_def upt_rec str_nat.simps)
    have f: "length (flattened_attorneys c1) = 2"
      using a by (simp add: length_flattened_attorneys)
    have r: "data_row (length (attorney_headers 3)) c1 =
           [PyStr (Case_Number c1), opt_value (Case_Type c1), PyStr (PDF_File c1)]
           @ flattened_attorneys c1 @ replicate 4 (PyStr '''')"
      using a data_row_padded [of c1 3] by simp
    show "final_headers [c3, c1] =
           [''Case Number'', ''Case Type'', ''PDF File'',
            ''Attorney Name 1'', ''Attorney Address 1'',
            ''Attorney Name 2'', ''Attorney Address 2'',
            ''Attorney Name 3'', ''Attorney Address 3'']
       \<and> final_headers [c1, c3] = final_headers [c3, c1]
       \<and> length (data_rows [c3, c1] ! 1) = 9
       \<and> drop 5 (data_rows [c3, c1] ! 1) = replicate 4 (PyStr '''')
       \<and> drop 5 (data_rows [c1, c3] ! 0) = replicate 4 (PyStr '''')"
      using m h f r by (simp add: final_headers_def base_headers_def data_rows_def)
  qed
qed

theorem save_to_csv_uniform_width_witness:
  "length (Attorney_Info case_three) = 3 \<and> length (Attorney_Info case_one) = 1
   \<and> map length (csv_rows [case_three, case_one]) = [9, 9, 9]
   \<and> csv_rows [case_three, case_one] ! 0 ! 7 = PyStr ''Attorney Name 3''
   \<and> drop 5 (data_rows [case_three, case_one] ! 1) = replicate 4 (PyStr '''')"
proof -
  have k: "length (Attorney_Info case_three) = 3 \<and> length (Attorney_Info case_one) = 1"
    by (simp add: case_three_def case_one_def)
  have m: "get_max_attorneys_in_batch [case_three, case_one] = 3"
    using k by (simp add: get_max_attorneys_in_batch_def)
  note t = save_to_csv_uniform_width [of "[case_three, case_one]" case_three case_one]
  have len3: "length (csv_rows [case_three, case_one]) = 3"
    by (simp add: csv_rows_def data_rows_def)
  have w: "\<forall>row \<in> set (csv_rows [case_three, case_one]). length row = 9"
    using t m by simp
  have w': "\<forall>i<3. length (csv_rows [case_three, case_one] ! i) = 9"
    using w len3 by (simp add: all_set_conv_all_nth)
  have "map length (csv_rows [case_three, case_one]) = [9, 9, 9]"
    using w' len3 by (simp add: list_eq_iff_nth_eq less_Suc_eq numeral_3_eq_3)
  moreover have "csv_rows [case_three, case_one] ! 0 ! 7 = PyStr ''Attorney Name 3''"
  proof -
    from t m have "\<forall>i<3. csv_rows [case_three, case_one] ! 0 ! (3 + 2 * i)
                     = PyStr (''Attorney Name '' @ str_nat (i + 1))" by simp
    then have "(2::nat) < 3 \<longrightarrow> csv_rows [case_three, case_one] ! 0 ! (3 + 2 * 2)
                     = PyStr (''Attorney Name '' @ str_nat (2 + 1))" by blast
    then show ?thesis by (simp add: str_nat.simps)
  qed
  moreover have "drop 5 (data_rows [case_three, case_one] ! 1) = replicate 4 (PyStr '''')"
    using t k by simp
  ultimately show ?thesis using k by simp
qed

section \<open>The small-estate exclusion\<close>

lemma small_estate_step:
  assumes "case_api_id_of (data_url c) = Inr cid"
    and "case_summaries w (base_url @ ''/app/RegisterOfActionsService/CaseSummariesSlim?key='' @ cid)
           = Inr (Some ''Decedents' Estate - Small Estate'')"
  shows "scrape_case w c s =
           (None, s\<lparr>requested := requested s
                        @ [base_url @ ''/app/RegisterOfActionsService/CaseSummariesSlim?key='' @ cid],
                    nc_log := nc_log s
                        @ [(INFO, ''Skipping the Case '' @ case_link_text c
                                  @ '' because Case Type is: Decedents' Estate - Small Estate'')]\<rparr>)"
  using assms by (simp add: scrape_case_def Let_def small_estate_def py_str_def)

lemma summary_url_distinct:
  "base_url @ ''/app/RegisterOfActionsService/CaseSummariesSlim?key='' @ cid
     \<noteq> register_of_actions ''Parties'' other
   \<and> base_url @ ''/app/RegisterOfActionsService/CaseSummariesSlim?key='' @ cid
     \<noteq> register_of_actions ''CaseEvents'' other"
  by (simp add: register_of_actions_def)

text \<open>
  C9. For a case whose case-type description is exactly
  \<open>Decedents' Estate - Small Estate\<close>, the body of the loop of \<open>scrape_cases\<close> ends
  without an exception, appends no record, requests the CaseSummariesSlim URL and nothing
  else (that URL is neither a Parties nor a CaseEvents URL), writes no file, and the loop
  goes on with the next case. No record of that case type is ever added to the batch.
\<close>

theorem small_estate_skipped:
  "(case_api_id_of (data_url c) = Inr cid
    \<and> case_summaries w (base_url @ ''/app/RegisterOfActionsService/CaseSummariesSlim?key='' @ cid)
         = Inr (Some ''Decedents' Estate - Small Estate'')
    \<longrightarrow> fst (scrape_case w c s) = None
        \<and> scraped_data (snd (scrape_case w c s)) = scraped_data s
        \<and> requested (snd (scrape_case w c s))
            = requested s @ [base_url @ ''/app/RegisterOfActionsService/CaseSummariesSlim?key='' @ cid]
        \<and> files_written (snd (scrape_case w c s)) = files_written s
        \<and> scrape_cases w (c # rest) s = scrape_cases w rest (snd (scrape_case w c s)))
   \<and> base_url @ ''/app/RegisterOfActionsService/CaseSummariesSlim?key='' @ cid
        \<noteq> register_of_actions ''Parties'' other
   \<and> base_url @ ''/app/RegisterOfActionsService/CaseSummariesSlim?key='' @ cid
        \<noteq> register_of_actions ''CaseEvents'' other
   \<and> ((\<forall>item \<in> set (scraped_data s). Case_Type item \<noteq> Some ''Decedents' Estate - Small Estate'')
        \<longrightarrow> (\<forall>item \<in> set (scraped_data (snd (scrape_cases w cs s))).
               Case_Type item \<noteq> Some ''Decedents' Estate - Small Estate''))"
proof (intro conjI impI)
  assume a: "case_api_id_of (data_url c) = Inr cid
    \<and> case_summaries w (base_url @ ''/app/RegisterOfActionsService/CaseSummariesSlim?key='' @ cid)
         = Inr (Some ''Decedents' Estate - Small Estate'')"
  note st = small_estate_step [OF conjunct1 [OF a] conjunct2 [OF a], of s]
  show "fst (scrape_case w c s) = None" by (simp add: st)
  show "scraped_data (snd (scrape_case w c s)) = scraped_data s" by (simp add: st)
  show "requested (snd (scrape_case w c s))
            = requested s @ [base_url @ ''/app/RegisterOfActionsService/CaseSummariesSlim?key='' @ cid]"
    by (simp add: st)
  show "files_written (snd (scrape_case w c s)) = files_written s" by (simp add: st)
  show "scrape_cases w (c # rest) s = scrape_cases w rest (snd (scrape_case w c s))"
    by (simp add: st)
next
  show "base_url @ ''/app/RegisterOfActionsService/CaseSummariesSlim?key='' @ cid
        \<noteq> register_of_actions ''Parties'' other"
    using summary_url_distinct by blast
  show "base_url @ ''/app/RegisterOfActionsService/CaseSummariesSlim?key='' @ cid
        \<noteq> register_of_actions ''CaseEvents'' other"
    using summary_url_distinct by blast
next
  assume "\<forall>item \<in> set (scraped_data s). Case_Type item \<noteq> Some ''Decedents' Estate - Small Estate''"
  then show "\<forall>item \<in> set (scraped_data (snd (scrape_cases w cs s))).
               Case_Type item \<noteq> Some ''Decedents' Estate - Small Estate''"
    using scrape_cases_data [of w cs s "fst (scrape_cases w cs s)" "snd (scrape_cases w cs s)"]
    by (simp add: small_estate_def)
qed

theorem small_estate_skipped_witness:
  "case_api_id_of (data_url small_case) = Inr ''A1''
   \<and> case_summaries example_world
        (base_url @ ''/app/RegisterOfActionsService/CaseSummariesSlim?key='' @ ''A1'')
        = Inr (Some ''Decedents' Estate - Small Estate'')
   \<and> fst (scrape_case example_world small_case nc_initial) = None
   \<and> scraped_data (snd (scrape_case example_world small_case nc_initial)) = []
   \<and> requested (snd (scrape_case example_world small_case nc_initial))
       = [''https://portal-nc.tylertech.cloud/app/RegisterOfActionsService/CaseSummariesSlim?key=A1'']
   \<and> Case_Type case_one \<noteq> Some ''Decedents' Estate - Small Estate''
   \<and> Case_Type (hd (scraped_data (snd (scrape_cases example_world [small_case]
                        (nc_initial\<lparr>scraped_data := [case_one]\<rparr>)))))
       \<noteq> Some ''Decedents' Estate - Small Estate''"
proof -
  have h1: "case_api_id_of (data_url small_case) = Inr ''A1''"
    by (simp add: case_api_id_of_def small_case_def split_sep_def)
  have h2: "case_summaries example_world
        (base_url @ ''/app/RegisterOfActionsService/CaseSummariesSlim?key='' @ ''A1'')
        = Inr (Some ''Decedents' Estate - Small Estate'')"
    by (simp add: example_world_def summary_url_def base_url_def)
  note t = small_estate_skipped [of small_case "''A1''" example_world nc_initial]
  from t h1 h2 have c: "fst (scrape_case example_world small_case nc_initial) = None
        \<and> scraped_data (snd (scrape_case example_world small_case nc_initial)) = scraped_data nc_initial
        \<and> requested (snd (scrape_case example_world small_case nc_initial))
            = requested nc_initial @ [base_url @ ''/app/RegisterOfActionsService/CaseSummariesSlim?key='' @ ''A1'']"
    by blast
  have h3: "Case_Type case_one \<noteq> Some ''Decedents' Estate - Small Estate''"
    by (simp add: case_one_def)
  then have h3': "\<forall>item \<in> set (scraped_data (nc_initial\<lparr>scraped_data := [case_one]\<rparr>)).
                    Case_Type item \<noteq> Some ''Decedents' Estate - Small Estate''"
    by simp
  note u = small_estate_skipped [of small_case "''A1''" example_world
              "nc_initial\<lparr>scraped_data := [case_one]\<rparr>" _ _ "[small_case]"]
  from u h3' have "\<forall>item \<in> set (scraped_data (snd (scrape_cases example_world [small_case]
                        (nc_initial\<lparr>scraped_data := [case_one]\<rparr>)))).
               Case_Type item \<noteq> Some ''Decedents' Estate - Small Estate''"
    by blast
  moreover have "scraped_data (snd (scrape_cases example_world [small_case]
                        (nc_initial\<lparr>scraped_data := [case_one]\<rparr>))) = [case_one]"
    using u h1 h2 by simp
  ultimately have d: "Case_Type (hd (scraped_data (snd (scrape_cases example_world [small_case]
                        (nc_initial\<lparr>scraped_data := [case_one]\<rparr>)))))
       \<noteq> Some ''Decedents' Estate - Small Estate''"
    by simp
  from h1 h2 c h3 d show ?thesis
    by (simp add: nc_initial_def base_url_def)
qed


section \<open>The record numbers searched by the North Carolina run\<close>

lemma digit_value_nth: "d < 10 \<Longrightarrow> digit_value (''0123456789'' ! d) = d"
proof -
  assume "d < 10"
  then have "d \<in> set [0 ..< 10]" by simp
  also have "[0 ..< 10] = [0, 1, 2, 3, 4, 5, 6, 7, 8, 9 :: nat]"
    by (simp add: upt_rec)
  finally consider "d = 0" | "d = 1" | "d = 2" | "d = 3" | "d = 4" | "d = 5" | "d = 6"
    | "d = 7" | "d = 8" | "d = 9"
    by auto
  then show ?thesis by cases (simp_all add: digit_value_def)
qed

lemma decimal_value_snoc: "decimal_value (ds @ [c]) = 10 * decimal_value ds + digit_value c"
  by (simp add: decimal_value_def)

lemma decimal_value_str_nat: "decimal_value (str_nat n) = n"
proof (induction n rule: str_nat.induct)
  case (1 n)
  show ?case
  proof (cases "n < 10")
    case True
    then have "str_nat n = [''0123456789'' ! n]" by (subst str_nat.simps) simp
    with True show ?thesis by (simp add: decimal_value_def digit_value_nth)
  next
    case False
    then have "str_nat n = str_nat (n div 10) @ [''0123456789'' ! (n mod 10)]"
      by (subst str_nat.simps) simp
    with 1 False show ?thesis
      by (simp add: decimal_value_snoc digit_value_nth)
  qed
qed

lemma decimal_value_format_02d: "decimal_value (format_02d n) = n"
proof -
  have "decimal_value (''0'' @ str_nat n) = decimal_value (str_nat n)"
    by (simp add: decimal_value_def digit_value_def)
  then show ?thesis by (simp add: format_02d_def decimal_value_str_nat)
qed

lemma record_number_of_inj: "record_number_of a = record_number_of b \<Longrightarrow> a = b"
proof -
  assume "record_number_of a = record_number_of b"
  then have "format_02d a = format_02d b" by (simp add: record_number_of_def)
  then have "decimal_value (format_02d a) = decimal_value (format_02d b)" by simp
  then show ?thesis by (simp add: decimal_value_format_02d)
qed

lemma str_nat_length: "Suc 0 \<le> length (str_nat n)"
  by (subst str_nat.simps) simp

lemma format_02d_length:
  "n < 100 \<Longrightarrow> length (format_02d n) = 2" "100 \<le> n \<Longrightarrow> 3 \<le> length (format_02d n)"
proof -
  assume n: "n < 100"
  show "length (format_02d n) = 2"
  proof (cases "n < 10")
    case True
    then have "str_nat n = [''0123456789'' ! n]" by (subst str_nat.simps) simp
    with True show ?thesis by (simp add: format_02d_def)
  next
    case False
    with n have d: "n div 10 < 10" by simp
    from False have "str_nat n = str_nat (n div 10) @ [''0123456789'' ! (n mod 10)]"
      by (subst str_nat.simps) simp
    moreover from d have "str_nat (n div 10) = [''0123456789'' ! (n div 10)]"
      by (subst str_nat.simps) simp
    ultimately show ?thesis using False by (simp add: format_02d_def)
  qed
next
  assume n: "100 \<le> n"
  then have d: "\<not> n div 10 < 10" by simp
  from n have "str_nat n = str_nat (n div 10) @ [''0123456789'' ! (n mod 10)]"
    by (subst str_nat.simps) simp
  moreover from d have "str_nat (n div 10)
                          = str_nat (n div 10 div 10) @ [''0123456789'' ! (n div 10 mod 10)]"
    by (subst str_nat.simps) simp
  ultimately have "length (str_nat n) = length (str_nat (n div 10 div 10)) + 2" by simp
  moreover note str_nat_length [of "n div 10 div 10"]
  ultimately have "3 \<le> length (str_nat n)" by linarith
  with n show "3 \<le> length (format_02d n)"
    by (simp add: format_02d_def)
qed

lemma long_world_criterion: "record_number_of 110 = ''24E00110*''"
  by (simp add: record_number_of_def format_02d_def str_nat.simps)

lemma long_world_pass:
  assumes "i < 55"
  shows "search_loop long_world (2 * i) s
           = search_loop long_world (2 * Suc i) (s\<lparr>searched := searched s @ [record_number_of (2 * i)]\<rparr>)"
proof -
  have "record_number_of (2 * i) \<noteq> record_number_of 110"
    using assms record_number_of_inj [of "2 * i" 110] by auto
  then have p: "portal long_world (record_number_of (2 * i)) = empty_page"
    by (simp add: long_world_def long_world_criterion)
  have b: "\<not> no_cases_banner (Some ''Cases'')"
    by (simp add: no_cases_banner_def strip_def is_space_def)
  have two: "2 * i + 2 = 2 * Suc i" by simp
  show ?thesis
    apply (subst search_loop.simps)
    apply (simp only: Let_def p empty_page_def search_response.simps option.case sum.case b
             if_False scrape_cases.simps prod.case two)
    done
qed

lemma long_world_stop:
  "search_loop long_world (2 * 55) s
     = Some (None, s\<lparr>searched := searched s @ [record_number_of (2 * 55)]\<rparr>)"
proof -
  have p: "portal long_world (record_number_of (2 * 55)) = no_cases_page"
    by (simp add: long_world_def long_world_criterion)
  have b: "no_cases_banner (Some ''No cases match your search'')"
    by (simp add: no_cases_banner_def strip_def is_space_def)
  show ?thesis
    apply (subst search_loop.simps)
    apply (simp only: Let_def p no_cases_page_def search_response.simps option.case sum.case b
             if_True)
    done
qed

lemma long_world_run:
  "i \<le> 55 \<Longrightarrow>
     search_loop long_world (2 * i) s
       = Some (None, s\<lparr>searched := searched s @ map (\<lambda>k. record_number_of (2 * k)) [i ..< 56]\<rparr>)"
proof (induction "55 - i" arbitrary: i s)
  case 0
  then have i: "i = 55" by simp
  have "[55 ..< 56] = [55::nat]" by (simp add: upt_rec)
  then show ?case unfolding i long_world_stop by simp
next
  case (Suc d)
  then have l: "i < 55" and d: "d = 55 - Suc i" and le: "Suc i \<le> 55" by simp_all
  have u: "[i ..< 56] = i # [Suc i ..< 56]" using l by (simp add: upt_conv_Cons)
  show ?case
    unfolding long_world_pass [OF l] Suc.hyps(1) [OF d le] u by simp
qed

lemma prefix_same_length: "prefix xs (ys @ zs) \<Longrightarrow> length xs = length ys \<Longrightarrow> xs = ys"
  by (auto simp: prefix_def)

text \<open>
  C10 as stated fails from iteration 50 on: \<open>2 * k\<close> then has three digits. When every
  search before it shows a page without cases, the search of iteration 55 types
  \<open>24E00110*\<close>, which begins with \<open>24E00\<close> and the two digits of the odd number 11.
\<close>

theorem search_loop_counterexample:
  "search_loop long_world 0 nc_initial \<noteq> None
   \<and> fst (the (search_loop long_world 0 nc_initial)) = None
   \<and> length (searched (snd (the (search_loop long_world 0 nc_initial)))) = 56
   \<and> searched (snd (the (search_loop long_world 0 nc_initial))) ! 55 = ''24E00110*''
   \<and> ''24E00'' @ format_02d (2 * 55) @ ''*'' = ''24E00110*''
   \<and> length (format_02d (2 * 55)) = 3
   \<and> take 7 ''24E00110*'' = ''24E00'' @ format_02d 11
   \<and> odd (11 :: nat)"
proof -
  have r: "search_loop long_world 0 nc_initial
             = Some (None, nc_initial\<lparr>searched := searched nc_initial
                       @ map (\<lambda>k. record_number_of (2 * k)) [0 ..< 56]\<rparr>)"
    using long_world_run [of 0 nc_initial] by simp
  have n: "map (\<lambda>k. record_number_of (2 * k)) [0 ..< 56] ! 55 = ''24E00110*''"
    by (simp add: long_world_criterion)
  have f: "format_02d 110 = ''110''" "format_02d 11 = ''11''"
    by (simp_all add: format_02d_def str_nat.simps)
  show ?thesis
    unfolding r using n by (simp add: nc_initial_def f)
qed

text \<open>
  C10, as the code has it. The search of iteration \<open>k\<close> (from 0) types \<open>24E00\<close>, then
  \<open>2 * k\<close> in decimal, padded with a zero to two digits when it is less than 10, then
  \<open>*\<close>: whenever the loop returns, the record numbers searched are those of
  \<open>k = 0 .. n\<close> in order, and the criterion of an odd number is not among them. The
  number has exactly two digits while \<open>k < 50\<close> and three or more from \<open>k = 50\<close> on; for
  \<open>k < 50\<close> the criterion does not begin with \<open>24E00\<close> and the two digits of an odd
  number. When the loop returns without an exception, its last search is the first one
  whose banner holds \<open>No cases match your search\<close>. When the search of iteration \<open>k\<close>
  shows that banner, the loop does return, after at most \<open>k + 1\<close> searches.
\<close>

theorem search_loop_even_record_numbers:
  "(search_loop w 0 s = Some (r, s') \<longrightarrow>
      (\<exists>n. searched s' = searched s @ map (\<lambda>k. ''24E00'' @ format_02d (2 * k) @ ''*'') [0 ..< Suc n]
           \<and> (r = None \<longrightarrow>
                shows_no_cases w (''24E00'' @ format_02d (2 * n) @ ''*'')
                \<and> (\<forall>j < n. \<not> shows_no_cases w (''24E00'' @ format_02d (2 * j) @ ''*'')))))
   \<and> (search_loop w 0 s = Some (r, s') \<longrightarrow>
        (\<forall>j. ''24E00'' @ format_02d (2 * j + 1) @ ''*''
               \<notin> set (drop (length (searched s)) (searched s'))))
   \<and> (shows_no_cases w (''24E00'' @ format_02d (2 * k) @ ''*'') \<longrightarrow>
        (\<exists>r' s'' n. search_loop w 0 s = Some (r', s'') \<and> n \<le> k
           \<and> searched s'' = searched s @ map (\<lambda>k. ''24E00'' @ format_02d (2 * k) @ ''*'') [0 ..< Suc n]))
   \<and> ''24E00'' @ format_02d (2 * 0) @ ''*'' = ''24E0000*''
   \<and> ''24E00'' @ format_02d (2 * 1) @ ''*'' = ''24E0002*''
   \<and> ''24E00'' @ format_02d (2 * 7) @ ''*'' = ''24E0014*''
   \<and> (k < 50 \<longrightarrow> length (format_02d (2 * k)) = 2)
   \<and> (50 \<le> m \<longrightarrow> 3 \<le> length (format_02d (2 * m)))
   \<and> (k < 50 \<and> j < 50 \<longrightarrow>
        \<not> prefix (''24E00'' @ format_02d (2 * j + 1)) (''24E00'' @ format_02d (2 * k) @ ''*''))"
proof (intro conjI impI)
  have q: "\<And>k. ''24E00'' @ format_02d k @ ''*'' = record_number_of k"
    by (simp add: record_number_of_def)
  {
    assume a: "search_loop w 0 s = Some (r, s')"
    from search_loop_trace [OF a, rule_format, of 0]
    obtain n where n: "searched s' = searched s @ map (\<lambda>k. record_number_of (2 * k)) [0 ..< Suc n]"
      "r = None \<longrightarrow> shows_no_cases w (record_number_of (2 * n))
                     \<and> (\<forall>j. 0 \<le> j \<and> j < n \<longrightarrow> \<not> shows_no_cases w (record_number_of (2 * j)))"
      by auto
    show "\<exists>n. searched s' = searched s @ map (\<lambda>k. ''24E00'' @ format_02d (2 * k) @ ''*'') [0 ..< Suc n]
           \<and> (r = None \<longrightarrow>
                shows_no_cases w (''24E00'' @ format_02d (2 * n) @ ''*'')
                \<and> (\<forall>j < n. \<not> shows_no_cases w (''24E00'' @ format_02d (2 * j) @ ''*'')))"
      unfolding q using n by (intro exI [of _ n]) simp
    show "\<forall>j. ''24E00'' @ format_02d (2 * j + 1) @ ''*''
               \<notin> set (drop (length (searched s)) (searched s'))"
    proof
      fix j
      show "''24E00'' @ format_02d (2 * j + 1) @ ''*''
               \<notin> set (drop (length (searched s)) (searched s'))"
      proof
        assume "''24E00'' @ format_02d (2 * j + 1) @ ''*''
               \<in> set (drop (length (searched s)) (searched s'))"
        then have "record_number_of (2 * j + 1)
                     \<in> set (map (\<lambda>k. record_number_of (2 * k)) [0 ..< Suc n])"
          unfolding q n(1) by simp
        then obtain k where "record_number_of (2 * j + 1) = record_number_of (2 * k)"
          by auto
        then have "2 * j + 1 = 2 * k" by (rule record_number_of_inj)
        then show False by presburger
      qed
    qed
  }
  {
    assume b: "shows_no_cases w (''24E00'' @ format_02d (2 * k) @ ''*'')"
    then have b': "shows_no_cases w (record_number_of (2 * k))" unfolding q .
    from search_loop_returns [OF b', of 0 s]
    obtain r' s'' where rs: "search_loop w 0 s = Some (r', s'')"
      "length (searched s'') \<le> length (searched s) + k + 1"
      by auto
    from search_loop_trace [OF rs(1), rule_format, of 0]
    obtain n where n: "searched s'' = searched s @ map (\<lambda>k. record_number_of (2 * k)) [0 ..< Suc n]"
      by auto
    with rs(2) have "n \<le> k" by simp
    with rs(1) n
    show "\<exists>r' s'' n. search_loop w 0 s = Some (r', s'') \<and> n \<le> k
           \<and> searched s'' = searched s @ map (\<lambda>k. ''24E00'' @ format_02d (2 * k) @ ''*'') [0 ..< Suc n]"
      unfolding q by blast
  }
  show "''24E00'' @ format_02d (2 * 0) @ ''*'' = ''24E0000*''"
    by (simp add: format_02d_def str_nat.simps)
  show "''24E00'' @ format_02d (2 * 1) @ ''*'' = ''24E0002*''"
    by (simp add: format_02d_def str_nat.simps)
  show "''24E00'' @ format_02d (2 * 7) @ ''*'' = ''24E0014*''"
    by (simp add: format_02d_def str_nat.simps)
  {
    assume "k < 50"
    then show "length (format_02d (2 * k)) = 2" by (simp add: format_02d_length)
  }
  {
    assume "50 \<le> m"
    then show "3 \<le> length (format_02d (2 * m))" by (simp add: format_02d_length)
  }
  {
    assume kj: "k < 50 \<and> j < 50"
    show "\<not> prefix (''24E00'' @ format_02d (2 * j + 1)) (''24E00'' @ format_02d (2 * k) @ ''*'')"
    proof
      assume "prefix (''24E00'' @ format_02d (2 * j + 1)) (''24E00'' @ format_02d (2 * k) @ ''*'')"
      then have "prefix (format_02d (2 * j + 1)) (format_02d (2 * k) @ ''*'')" by simp
      moreover from kj have "length (format_02d (2 * j + 1)) = length (format_02d (2 * k))"
        by (simp add: format_02d_length)
      ultimately have "format_02d (2 * j + 1) = format_02d (2 * k)"
        by (rule prefix_same_length)
      then have "decimal_value (format_02d (2 * j + 1)) = decimal_value (format_02d (2 * k))"
        by simp
      then have "2 * j + 1 = 2 * k" by (simp only: decimal_value_format_02d)
      then show False by presburger
    qed
  }
qed

theorem search_loop_even_record_numbers_witness:
  "length (format_02d (2 * 1)) = 2 \<and> 3 \<le> length (format_02d (2 * 55))
   \<and> \<not> prefix (''24E00'' @ format_02d (2 * 0 + 1)) (''24E00'' @ format_02d (2 * 1) @ ''*'')
   \<and> shows_no_cases example_world (''24E00'' @ format_02d (2 * 1) @ ''*'')
   \<and> search_loop example_world 0 nc_initial \<noteq> None
   \<and> (case search_loop example_world 0 nc_initial of
         None \<Rightarrow> False
       | Some (r, s') \<Rightarrow> r = None \<and> searched s' = [''24E0000*'', ''24E0002*'']
                         \<and> ''24E0001*'' \<notin> set (searched s'))"
proof -
  have e: "search_loop example_world 0 nc_initial
             = Some (None, snd (the (search_loop example_world 0 nc_initial)))"
    by (simp add: example_search_loop)
  have se: "searched (snd (the (search_loop example_world 0 nc_initial)))
              = [''24E0000*'', ''24E0002*'']"
    by (simp add: example_search_loop nc_initial_def)
  note t = search_loop_even_record_numbers
             [of example_world nc_initial None "snd (the (search_loop example_world 0 nc_initial))" 1
                 55 0]
  have h: "shows_no_cases example_world (''24E00'' @ format_02d (2 * 1) @ ''*'')"
    by (simp add: shows_no_cases_def example_world_def no_cases_page_def no_cases_banner_def
          strip_def is_space_def format_02d_def str_nat.simps)
  from t h have "\<exists>r' s'' n. search_loop example_world 0 nc_initial = Some (r', s'') \<and> n \<le> 1
           \<and> searched s'' = searched nc_initial
                @ map (\<lambda>k. ''24E00'' @ format_02d (2 * k) @ ''*'') [0 ..< Suc n]"
    by blast
  then have ret: "search_loop example_world 0 nc_initial \<noteq> None" by auto
  from t e have "\<forall>j. ''24E00'' @ format_02d (2 * j + 1) @ ''*''
               \<notin> set (drop (length (searched nc_initial))
                          (searched (snd (the (search_loop example_world 0 nc_initial)))))"
    by blast
  then have "''24E00'' @ format_02d (2 * 0 + 1) @ ''*''
               \<notin> set (drop (length (searched nc_initial))
                          (searched (snd (the (search_loop example_world 0 nc_initial)))))"
    by (rule spec)
  then have odd: "''24E0001*'' \<notin> set (searched (snd (the (search_loop example_world 0 nc_initial))))"
    by (simp add: format_02d_def str_nat.simps nc_initial_def)
  from e se odd have "(case search_loop example_world 0 nc_initial of
         None \<Rightarrow> False
       | Some (r, s') \<Rightarrow> r = None \<and> searched s' = [''24E0000*'', ''24E0002*'']
                         \<and> ''24E0001*'' \<notin> set (searched s'))"
    by (cases "search_loop example_world 0 nc_initial") auto
  moreover from t have "(1::nat) < 50 \<longrightarrow> length (format_02d (2 * 1)) = 2"
    by (elim conjE)
  then have "length (format_02d (2 * 1)) = 2" by simp
  moreover from t have "(50::nat) \<le> 55 \<longrightarrow> 3 \<le> length (format_02d (2 * 55))"
    by (elim conjE)
  then have "3 \<le> length (format_02d (2 * 55))" by simp
  moreover from t have "(1::nat) < 50 \<and> (0::nat) < 50 \<longrightarrow>
        \<not> prefix (''24E00'' @ format_02d (2 * 0 + 1)) (''24E00'' @ format_02d (2 * 1) @ ''*'')"
    by (elim conjE)
  then have "\<not> prefix (''24E00'' @ format_02d (2 * 0 + 1)) (''24E00'' @ format_02d (2 * 1) @ ''*'')"
    by simp
  ultimately show ?thesis using h ret by (intro conjI)
qed


end
